theory Spec2Isabelle
  imports
    Main
    "HOL-Library.Word"
    "HOL-Library.Char_ord"
    "HOL-Library.List_Lexorder"
    "HOL-Library.Multiset"
begin

section \<open>DjVusep Tailor: the page pipeline of \<open>djvusep_taylor.py\<close>\<close>

text \<open>
  The script converts the images of a directory to single-page DjVu files, one job per
  directory entry on a thread pool, and joins the pages with \<open>djvm\<close>. The embedding
  follows the source function by function: \<open>run_command\<close>, the nested
  \<open>process_image\<close> and \<open>main\<close>. What lies outside the script (the external programs,
  the directory listing, the image decoder, the bytes decoder of the runtime) is a field
  of the record \<open>env\<close>; the general theorems hold for all of them.
\<close>

subsection \<open>Values of the Python runtime\<close>

type_synonym bytes = "8 word list"
type_synonym path = string
type_synonym command = "string list"

text \<open>
  The exceptions the script can meet. \<open>CommandError message stderr\<close> is the class of
  the source (lines 33-44); the others are exceptions of the runtime and of the libraries,
  each with the text \<open>str(e)\<close> gives.
\<close>

datatype py_exn =
    CommandError string string
  | IndexError string
  | ValueError string
  | OSError string
  | UnicodeDecodeError string
  | ImageOpenError string
  | Abort

fun str_exn :: "py_exn \<Rightarrow> string" where
  "str_exn (CommandError message err) = message"
| "str_exn (IndexError m) = m"
| "str_exn (ValueError m) = m"
| "str_exn (OSError m) = m"
| "str_exn (UnicodeDecodeError m) = m"
| "str_exn (ImageOpenError m) = m"
| "str_exn Abort = []"

text \<open>\<open>str\<close> of an integer, in decimal.\<close>

fun str_nat :: "nat \<Rightarrow> string" where
  "str_nat n =
     (if n < 10 then [''0123456789'' ! n]
      else str_nat (n div 10) @ [''0123456789'' ! (n mod 10)])"

declare str_nat.simps [simp del]

definition str_int :: "int \<Rightarrow> string" where
  "str_int i = (if i < 0 then CHR ''-'' # str_nat (nat (- i)) else str_nat (nat i))"

text \<open>
  \<open>str\<close> of a list of strings, as \<open>"{}".format(command)\<close> prints it: the \<open>repr\<close> of
  each element between brackets. \<open>repr\<close> is modelled for strings without quotes,
  backslashes or control characters, where it only adds the single quotes (every command
  of the script is such a list unless a path holds such a character; no theorem depends
  on the text of \<open>repr\<close>).
\<close>

definition repr_str :: "string \<Rightarrow> string" where
  "repr_str s = CHR 0x27 # s @ [CHR 0x27]"

fun join_str :: "string \<Rightarrow> string list \<Rightarrow> string" where
  "join_str sep [] = []"
| "join_str sep [x] = x"
| "join_str sep (x # y # ys) = x @ sep @ join_str sep (y # ys)"

definition str_list :: "string list \<Rightarrow> string" where
  "str_list xs = ''['' @ join_str '', '' (map repr_str xs) @ '']''"

text \<open>
  \<open>template.format(*args)\<close> for a template whose only braces are automatically
  numbered fields \<open>{}\<close> (both templates of the source are such). A field with no
  argument left raises \<open>IndexError\<close>, with the message of CPython 3.8 and later.
\<close>

fun py_format_from :: "nat \<Rightarrow> string \<Rightarrow> string list \<Rightarrow> py_exn + string" where
  "py_format_from n (a # b # t) args =
     (if a = CHR ''{'' \<and> b = CHR ''}'' then
        (if n < length args then
           (case py_format_from (Suc n) t args of
              Inl e \<Rightarrow> Inl e
            | Inr s \<Rightarrow> Inr (args ! n @ s))
         else Inl (IndexError (''Replacement index '' @ str_nat n @
                     '' out of range for positional args tuple'')))
      else
        (case py_format_from n (b # t) args of
           Inl e \<Rightarrow> Inl e
         | Inr s \<Rightarrow> Inr (a # s)))"
| "py_format_from n t args = Inr t"

definition py_format :: "string \<Rightarrow> string list \<Rightarrow> py_exn + string" where
  "py_format template args = py_format_from 0 template args"

subsection \<open>The world outside the script\<close>

text \<open>
  What \<open>subprocess.Popen\<close> and \<open>communicate\<close> give: the launch fails with an
  \<open>OSError\<close> (missing binary, permission denied), or the process exits with a return
  code, its standard output and its standard error.
\<close>

datatype proc_outcome =
    LaunchFailure string
  | Exited int bytes bytes

type_synonym filesystem = "path \<rightharpoonup> bytes"

text \<open>
  The state the script acts on: the files with their contents, and the list of the
  processes started so far, each with the bytes written to its standard input.
\<close>

record world =
  files :: filesystem
  invocations :: "(command \<times> bytes option) list"

record env =
  exec :: "command \<Rightarrow> bytes option \<Rightarrow> filesystem \<Rightarrow> proc_outcome \<times> filesystem"
  decode :: "bytes \<Rightarrow> string + string"
  listdir :: "filesystem \<Rightarrow> path \<Rightarrow> string list"
  image_open :: "filesystem \<Rightarrow> path \<Rightarrow> string + string"
  mkstemp :: "filesystem \<Rightarrow> path \<Rightarrow> string \<Rightarrow> string + path"
  mkdtemp :: "filesystem \<Rightarrow> string \<Rightarrow> path"
  confirm :: bool
  as_completed :: "string list \<Rightarrow> string list"

subsection \<open>\<open>run_command\<close> (lines 47-79)\<close>

text \<open>
  The body of the \<open>try\<close>. The f-string of the second \<open>logger.debug\<close> is evaluated at
  every log level, so \<open>stderr.decode()\<close> runs (and may raise) also when the process
  succeeded. The third component of the returned tuple, the process object, is not used
  by any caller and is left out.
\<close>

definition run_command_try ::
  "env \<Rightarrow> command \<Rightarrow> bytes option \<Rightarrow> world \<Rightarrow> (py_exn + bytes \<times> bytes) \<times> world" where
  "run_command_try e command input_data w =
     (let w1 = w\<lparr>invocations := invocations w @ [(command, input_data)]\<rparr> in
      case exec e command input_data (files w1) of
        (LaunchFailure msg, fs) \<Rightarrow> (Inl (OSError msg), w1\<lparr>files := fs\<rparr>)
      | (Exited returncode stdout stderr, fs) \<Rightarrow>
          (let w2 = w1\<lparr>files := fs\<rparr> in
           case decode e stderr of
             Inl msg \<Rightarrow> (Inl (UnicodeDecodeError msg), w2)
           | Inr stderr_text \<Rightarrow>
               if returncode \<noteq> 0 then
                 (case py_format ''Command {} failed with return code {}: {}''
                         [str_list command, str_int returncode] of
                    Inl ex \<Rightarrow> (Inl ex, w2)
                  | Inr message \<Rightarrow> (Inl (CommandError message stderr_text), w2))
               else (Inr (stdout, stderr), w2)))"

text \<open>
  The \<open>except Exception as e\<close> clause: it catches every exception of the body, the
  \<open>CommandError\<close> raised there included, and raises a new \<open>CommandError\<close> whose
  \<open>stderr\<close> is the empty string.
\<close>

definition run_command ::
  "env \<Rightarrow> command \<Rightarrow> bytes option \<Rightarrow> world \<Rightarrow> (py_exn + bytes \<times> bytes) \<times> world" where
  "run_command e command input_data w =
     (case run_command_try e command input_data w of
        (Inl ex, w') \<Rightarrow>
          (case py_format ''Error running command {}: {}'' [str_list command, str_exn ex] of
             Inl ex' \<Rightarrow> (Inl ex', w')
           | Inr message \<Rightarrow> (Inl (CommandError message []), w'))
      | (Inr r, w') \<Rightarrow> (Inr r, w'))"

subsection \<open>Paths (\<open>os.path\<close>)\<close>

text \<open>\<open>os.path.join\<close> of two components, as \<open>posixpath\<close> defines it.\<close>

definition path_join :: "path \<Rightarrow> path \<Rightarrow> path" where
  "path_join a b =
     (if b \<noteq> [] \<and> hd b = CHR ''/'' then b
      else if a = [] \<or> last a = CHR ''/'' then a @ b
      else a @ ''/'' @ b)"

definition endswith :: "string \<Rightarrow> string \<Rightarrow> bool" where
  "endswith s suffix = (length suffix \<le> length s \<and> drop (length s - length suffix) s = suffix)"

text \<open>\<open>str.rfind\<close> for one character: the last index where it stands, or \<open>-1\<close>.\<close>

definition rfind :: "string \<Rightarrow> char \<Rightarrow> int" where
  "rfind p c =
     (if c \<in> set p then int (length p) - 1 - int (length (takeWhile (\<lambda>x. x \<noteq> c) (rev p)))
      else - 1)"

text \<open>
  \<open>os.path.splitext\<close> (\<open>genericpath._splitext\<close>): the extension starts at the last dot
  after the last separator, unless only dots stand before it in the file name. The
  \<open>while\<close> loop that skips the leading dots is \<open>splitext_loop\<close>; it answers whether
  the loop returned the split.
\<close>

function splitext_loop :: "string \<Rightarrow> nat \<Rightarrow> nat \<Rightarrow> bool" where
  "splitext_loop p filenameIndex dotIndex =
     (if filenameIndex < dotIndex then
        (if p ! filenameIndex \<noteq> CHR ''.'' then True
         else splitext_loop p (Suc filenameIndex) dotIndex)
      else False)"
  by pat_completeness auto
termination
  by (relation "measure (\<lambda>(p, filenameIndex, dotIndex). dotIndex - filenameIndex)") auto

declare splitext_loop.simps [simp del]

definition splitext :: "string \<Rightarrow> string \<times> string" where
  "splitext p =
     (let sepIndex = rfind p CHR ''/'';
          dotIndex = rfind p CHR ''.''
      in if dotIndex > sepIndex \<and> splitext_loop p (nat (sepIndex + 1)) (nat dotIndex)
         then (take (nat dotIndex) p, drop (nat dotIndex) p)
         else (p, []))"

text \<open>
  \<open>os.path.exists\<close>. The model of the file system holds regular files only, so a
  directory at the path is not seen.
\<close>

definition path_exists :: "world \<Rightarrow> path \<Rightarrow> bool" where
  "path_exists w p = (files w p \<noteq> None)"

subsection \<open>The options of the command line (lines 81-91)\<close>

record config =
  inputdir :: path
  outputfile :: "path option"
  resolution :: int
  cr_cjb2 :: int
  cr_c44 :: string
  temp_dir :: "path option"
  keep_temp :: bool
  threads :: int

definition background_dir :: "config \<Rightarrow> path" where
  "background_dir c = path_join (inputdir c) ''background''"

definition foreground_dir :: "config \<Rightarrow> path" where
  "foreground_dir c = path_join (inputdir c) ''foreground''"

subsection \<open>\<open>process_image\<close> (lines 113-171)\<close>

type_synonym job_result = "py_exn + (string \<times> path) option"

text \<open>
  The names the function derives from the file name (lines 123-128). \<open>td\<close> is the
  temporary directory \<open>main\<close> has settled on.
\<close>

definition page_name_of :: "string \<Rightarrow> string" where
  "page_name_of filename = fst (splitext filename)"

definition background_path_of :: "config \<Rightarrow> string \<Rightarrow> path" where
  "background_path_of c filename = path_join (background_dir c) (page_name_of filename @ ''.tif'')"

definition foreground_path_of :: "config \<Rightarrow> string \<Rightarrow> path" where
  "foreground_path_of c filename = path_join (foreground_dir c) (page_name_of filename @ ''.tif'')"

definition output_path_of :: "path \<Rightarrow> string \<Rightarrow> path" where
  "output_path_of td filename = path_join td (page_name_of filename @ ''.djvu'')"

text \<open>Lines 131-145: the page has a background and a foreground file.\<close>

definition process_separated ::
  "env \<Rightarrow> config \<Rightarrow> path \<Rightarrow> string \<Rightarrow> world \<Rightarrow> job_result \<times> world" where
  "process_separated e c td filename w =
     (case run_command e [''tifftopnm'', background_path_of c filename] None w of
        (Inl ex, w1) \<Rightarrow> (Inl ex, w1)
      | (Inr (background_pam_data, _), w1) \<Rightarrow>
     (case run_command e [''tifftopnm'', foreground_path_of c filename] None w1 of
        (Inl ex, w2) \<Rightarrow> (Inl ex, w2)
      | (Inr (foreground_pbm_data, _), w2) \<Rightarrow>
     (case run_command e [''pbmtodjvurle''] (Some foreground_pbm_data) w2 of
        (Inl ex, w3) \<Rightarrow> (Inl ex, w3)
      | (Inr (foreground_rle_data, _), w3) \<Rightarrow>
     (let combined_data = foreground_rle_data @ background_pam_data in
      case run_command e
             [''csepdjvu'', ''-d'', str_int (resolution c), ''-q'', cr_c44 c, ''-'',
              output_path_of td filename]
             (Some combined_data) w3 of
        (Inl ex, w4) \<Rightarrow> (Inl ex, w4)
      | (Inr _, w4) \<Rightarrow> (Inr (Some (filename, output_path_of td filename)), w4)))))"

text \<open>Lines 151-156: a single image of mode \<open>1\<close>.\<close>

definition process_bitonal ::
  "env \<Rightarrow> config \<Rightarrow> path \<Rightarrow> string \<Rightarrow> world \<Rightarrow> job_result \<times> world" where
  "process_bitonal e c td filename w =
     (case run_command e
             [''cjb2'', ''-dpi'', str_int (resolution c), ''-losslevel'', str_int (cr_cjb2 c),
              path_join (inputdir c) filename, output_path_of td filename]
             None w of
        (Inl ex, w1) \<Rightarrow> (Inl ex, w1)
      | (Inr _, w1) \<Rightarrow> (Inr (Some (filename, output_path_of td filename)), w1))"

text \<open>
  Lines 163-171: a single image of mode \<open>RGB\<close> or \<open>L\<close>. \<open>photo_body\<close> is the block
  under \<open>with tempfile.NamedTemporaryFile(...) as temp_file\<close>, given the name of the
  file; \<open>process_photo\<close> creates the file (empty), runs the block and, whatever the
  block did, leaves the \<open>with\<close> statement by closing the file, which deletes it (a file
  already gone is ignored, as since Python 3.12). A failure to create the file raises
  before the block.
\<close>

definition photo_body ::
  "env \<Rightarrow> config \<Rightarrow> path \<Rightarrow> string \<Rightarrow> path \<Rightarrow> world \<Rightarrow> (py_exn + unit) \<times> world" where
  "photo_body e c td filename temp_file_name w =
     (case run_command e [''tifftopnm'', path_join (inputdir c) filename] None w of
        (Inl ex, w1) \<Rightarrow> (Inl ex, w1)
      | (Inr (tiff_to_pbm_data, _), w1) \<Rightarrow>
     (let w2 = w1\<lparr>files := (files w1)(temp_file_name \<mapsto> tiff_to_pbm_data)\<rparr> in
      case run_command e
             [''c44'', ''-dpi'', str_int (resolution c), ''-slice'', cr_c44 c,
              temp_file_name, output_path_of td filename]
             None w2 of
        (Inl ex, w3) \<Rightarrow> (Inl ex, w3)
      | (Inr _, w3) \<Rightarrow> (Inr (), w3)))"

definition process_photo ::
  "env \<Rightarrow> config \<Rightarrow> path \<Rightarrow> string \<Rightarrow> world \<Rightarrow> job_result \<times> world" where
  "process_photo e c td filename w =
     (case mkstemp e (files w) td ''djvu_temp_'' of
        Inl msg \<Rightarrow> (Inl (OSError msg), w)
      | Inr temp_file_name \<Rightarrow>
          (let w0 = w\<lparr>files := (files w)(temp_file_name \<mapsto> [])\<rparr>;
               (r, w1) = photo_body e c td filename temp_file_name w0;
               w2 = w1\<lparr>files := (files w1)(temp_file_name := None)\<rparr>
           in case r of
                Inl ex \<Rightarrow> (Inl ex, w2)
              | Inr _ \<Rightarrow> (Inr (Some (filename, output_path_of td filename)), w2)))"

text \<open>
  The whole function. It returns \<open>None\<close> (here \<open>Inr None\<close>) by falling off its end:
  for a name that does not end in \<open>.tif\<close>, and for a single image of another mode.
  \<open>Image.open\<close> is called outside \<open>run_command\<close>; what it raises leaves the function
  as it is.
\<close>

definition process_image ::
  "env \<Rightarrow> config \<Rightarrow> path \<Rightarrow> string \<Rightarrow> world \<Rightarrow> job_result \<times> world" where
  "process_image e c td filename w =
     (if endswith filename ''.tif'' then
        (if path_exists w (background_path_of c filename) \<and>
            path_exists w (foreground_path_of c filename)
         then process_separated e c td filename w
         else
           (case image_open e (files w) (path_join (inputdir c) filename) of
              Inl msg \<Rightarrow> (Inl (ImageOpenError msg), w)
            | Inr mode \<Rightarrow>
                if mode = ''1'' then process_bitonal e c td filename w
                else if mode = ''RGB'' \<or> mode = ''L'' then process_photo e c td filename w
                else (Inr None, w)))
      else (Inr None, w))"

subsection \<open>\<open>main\<close> (lines 91-204)\<close>

text \<open>
  The jobs. The thread pool runs \<open>process_image\<close> once for every name submitted; the
  model runs the jobs one after the other, in the order in which they complete, each from
  the world the one before left (the steps of two jobs are not interleaved).
\<close>

fun run_jobs ::
  "env \<Rightarrow> config \<Rightarrow> path \<Rightarrow> string list \<Rightarrow> world \<Rightarrow> job_result list \<times> world" where
  "run_jobs e c td [] w = ([], w)"
| "run_jobs e c td (filename # rest) w =
     (let (r, w1) = process_image e c td filename w;
          (rs, w2) = run_jobs e c td rest w1
      in (r # rs, w2))"

text \<open>
  Lines 183-187: the loop over the completed futures. \<open>future.result()\<close> raises again
  what the job raised, and nothing catches it.
\<close>

fun collect :: "job_result list \<Rightarrow> (string \<times> path) list \<Rightarrow> py_exn + (string \<times> path) list" where
  "collect [] pages = Inr pages"
| "collect (Inl ex # rest) pages = Inl ex"
| "collect (Inr None # rest) pages = collect rest pages"
| "collect (Inr (Some (filename, page)) # rest) pages =
     (if page \<noteq> [] then collect rest (pages @ [(filename, page)]) else collect rest pages)"

text \<open>
  Line 190: \<open>pages.sort(key=lambda x: sorted(os.listdir(inputdir)).index(x[0]))\<close>.
  \<open>list.index\<close> raises \<open>ValueError\<close> for a name that is not in the listing; the sort of
  Python is stable, as \<open>sort_key\<close> is.
\<close>

definition list_index :: "'a list \<Rightarrow> 'a \<Rightarrow> nat" where
  "list_index xs x = length (takeWhile (\<lambda>y. y \<noteq> x) xs)"

definition restore_order ::
  "string list \<Rightarrow> (string \<times> path) list \<Rightarrow> py_exn + (string \<times> path) list" where
  "restore_order listing pages =
     (case find (\<lambda>x. fst x \<notin> set listing) pages of
        Some x \<Rightarrow> Inl (ValueError (repr_str (fst x) @ '' is not in list''))
      | None \<Rightarrow> Inr (sort_key (\<lambda>x. list_index listing (fst x)) pages))"

text \<open>How a run of \<open>main\<close> ends when no exception leaves it.\<close>

datatype report = Created path | NoPagesFound

text \<open>\<open>temp_dir_obj.cleanup()\<close>: every file below the directory goes.\<close>

definition cleanup :: "path \<Rightarrow> filesystem \<Rightarrow> filesystem" where
  "cleanup d fs = (\<lambda>p. if take (length d + 1) p = d @ ''/'' then None else fs p)"

text \<open>Lines 194-204: the assembly.\<close>

definition assemble ::
  "env \<Rightarrow> config \<Rightarrow> path \<Rightarrow> path option \<Rightarrow> path list \<Rightarrow> world \<Rightarrow> (py_exn + report) \<times> world" where
  "assemble e c out temp_dir_obj pages w =
     (if pages \<noteq> [] then
        (let w1 = (if path_exists w out then w\<lparr>files := (files w)(out := None)\<rparr> else w) in
         case run_command e ([''djvm'', ''-c'', out] @ pages) None w1 of
           (Inl ex, w2) \<Rightarrow> (Inl ex, w2)
         | (Inr _, w2) \<Rightarrow>
             (case temp_dir_obj of
                Some d \<Rightarrow>
                  if \<not> keep_temp c then (Inr (Created out), w2\<lparr>files := cleanup d (files w2)\<rparr>)
                  else (Inr (Created out), w2)
              | None \<Rightarrow> (Inr (Created out), w2)))
      else (Inr NoPagesFound, w))"

text \<open>
  The function. \<open>click.confirm(..., abort=True)\<close> raises \<open>Abort\<close> when the user says no;
  \<open>ThreadPoolExecutor\<close> raises \<open>ValueError\<close> for a number of workers below one. The
  executor is left (and so every job has run) before an exception of the loop goes on.
\<close>

definition outputfile_of :: "config \<Rightarrow> path" where
  "outputfile_of c =
     (case outputfile c of None \<Rightarrow> path_join (inputdir c) ''output.djvu'' | Some f \<Rightarrow> f)"

definition temp_dir_obj_of :: "env \<Rightarrow> config \<Rightarrow> world \<Rightarrow> path option" where
  "temp_dir_obj_of e c w =
     (case temp_dir c of None \<Rightarrow> Some (mkdtemp e (files w) ''djvu_temp_'') | Some d \<Rightarrow> None)"

definition temp_dir_of :: "env \<Rightarrow> config \<Rightarrow> world \<Rightarrow> path" where
  "temp_dir_of e c w =
     (case temp_dir c of None \<Rightarrow> mkdtemp e (files w) ''djvu_temp_'' | Some d \<Rightarrow> d)"

text \<open>
  Lines 174-175: one job for each name of the sorted listing; \<open>as_completed\<close> gives the
  order in which they complete.
\<close>

definition submitted :: "env \<Rightarrow> config \<Rightarrow> world \<Rightarrow> string list" where
  "submitted e c w = sort (listdir e (files w) (inputdir c))"

definition run_pool :: "env \<Rightarrow> config \<Rightarrow> world \<Rightarrow> job_result list \<times> world" where
  "run_pool e c w = run_jobs e c (temp_dir_of e c w) (as_completed e (submitted e c w)) w"

definition main :: "env \<Rightarrow> config \<Rightarrow> world \<Rightarrow> (py_exn + report) \<times> world" where
  "main e c w =
     (if path_exists w (outputfile_of c) \<and> \<not> confirm e then (Inl Abort, w)
      else if threads c \<le> 0 then (Inl (ValueError ''max_workers must be greater than 0''), w)
      else
        (let (results, w1) = run_pool e c w in
         case collect results [] of
           Inl ex \<Rightarrow> (Inl ex, w1)
         | Inr pages \<Rightarrow>
             (case restore_order (sort (listdir e (files w1) (inputdir c))) pages of
                Inl ex \<Rightarrow> (Inl ex, w1)
              | Inr pages' \<Rightarrow>
                  assemble e c (outputfile_of c) (temp_dir_obj_of e c w) (map snd pages') w1)))"

text \<open>The processes started between two worlds.\<close>

definition new_invocations :: "world \<Rightarrow> world \<Rightarrow> (command \<times> bytes option) list" where
  "new_invocations w w' = drop (length (invocations w)) (invocations w')"

subsection \<open>The commands of a page\<close>

text \<open>
  The command lines \<open>process_image\<close> builds for a page of each kind, in the order in
  which it starts them (lines 135-143, 154, 165-170), and the test of line 130.
\<close>

definition separated_commands :: "config \<Rightarrow> path \<Rightarrow> string \<Rightarrow> command list" where
  "separated_commands c td filename =
     [[''tifftopnm'', background_path_of c filename],
      [''tifftopnm'', foreground_path_of c filename],
      [''pbmtodjvurle''],
      [''csepdjvu'', ''-d'', str_int (resolution c), ''-q'', cr_c44 c, ''-'',
       output_path_of td filename]]"

definition bitonal_commands :: "config \<Rightarrow> path \<Rightarrow> string \<Rightarrow> command list" where
  "bitonal_commands c td filename =
     [[''cjb2'', ''-dpi'', str_int (resolution c), ''-losslevel'', str_int (cr_cjb2 c),
       path_join (inputdir c) filename, output_path_of td filename]]"

definition photo_commands :: "config \<Rightarrow> path \<Rightarrow> string \<Rightarrow> path \<Rightarrow> command list" where
  "photo_commands c td filename temp_file_name =
     [[''tifftopnm'', path_join (inputdir c) filename],
      [''c44'', ''-dpi'', str_int (resolution c), ''-slice'', cr_c44 c, temp_file_name,
       output_path_of td filename]]"

definition both_layers_exist :: "config \<Rightarrow> string \<Rightarrow> world \<Rightarrow> bool" where
  "both_layers_exist c filename w =
     (path_exists w (background_path_of c filename) \<and> path_exists w (foreground_path_of c filename))"

text \<open>The programs a job may start, and the shape of what a job returns.\<close>

definition job_programs :: "string list" where
  "job_programs = [''tifftopnm'', ''pbmtodjvurle'', ''csepdjvu'', ''cjb2'', ''c44'']"

definition result_of :: "path \<Rightarrow> string \<Rightarrow> job_result \<Rightarrow> bool" where
  "result_of td filename r =
     (case r of Inr (Some x) \<Rightarrow> x = (filename, output_path_of td filename) | _ \<Rightarrow> True)"

text \<open>
  The names whose job returned a page, given the names in the order of completion and
  the results in the same order.
\<close>

definition pages_returned :: "string list \<Rightarrow> job_result list \<Rightarrow> string list" where
  "pages_returned names results =
     map fst (filter (\<lambda>(n, r). case r of Inr (Some x) \<Rightarrow> True | _ \<Rightarrow> False) (zip names results))"

text \<open>
  A stem as scanned pages have it: no separator in it, and a character other than a dot.
\<close>

definition plain_stem :: "string \<Rightarrow> bool" where
  "plain_stem s = (CHR ''/'' \<notin> set s \<and> (\<exists>c\<in>set s. c \<noteq> CHR ''.''))"

subsection \<open>A concrete directory\<close>

text \<open>
  An input directory \<open>in\<close> and stand-ins for the external programs, on which the
  definitions above can be run. The file \<open>page1.tif\<close> is a bitonal image, \<open>page2.tif\<close>
  is RGB, \<open>page3.tif\<close> has a foreground and a background file, \<open>page4.tif\<close> is CMYK
  and \<open>page5.tif\<close> is no image; an output file of an earlier run is there, and a
  bitonal image named \<open>.tif\<close> with layers of the same name. The stand-in for
  \<open>tifftopnm\<close> writes the byte 80 and then the file, the one for \<open>pbmtodjvurle\<close> the
  byte 82 and then its input, and each encoder writes to its output file the byte 68 and
  then what it read (its standard input, or the file named before the output). The
  programs named in \<open>bad\<close> exit with status 1 and the text \<open>boom\<close> on standard
  error; \<open>as_completed\<close> gives the jobs in the reverse of the order of submission.
\<close>

definition demo_files :: filesystem where
  "demo_files =
     [''in/page1.tif'' \<mapsto> [1],
      ''in/page2.tif'' \<mapsto> [2],
      ''in/page3.tif'' \<mapsto> [3],
      ''in/page4.tif'' \<mapsto> [4],
      ''in/page5.tif'' \<mapsto> [5],
      ''in/foreground/page3.tif'' \<mapsto> [1, 1],
      ''in/background/page3.tif'' \<mapsto> [2, 2],
      ''in/notes.txt'' \<mapsto> [110],
      ''in/output.djvu'' \<mapsto> [79],
      ''in/.tif'' \<mapsto> [1],
      ''in/foreground/.tif'' \<mapsto> [1, 1],
      ''in/background/.tif'' \<mapsto> [2, 2]]"

definition demo_world :: world where
  "demo_world = \<lparr>files = demo_files, invocations = []\<rparr>"

definition demo_exec ::
  "string list \<Rightarrow> command \<Rightarrow> bytes option \<Rightarrow> filesystem \<Rightarrow> proc_outcome \<times> filesystem" where
  "demo_exec bad command input_data fs =
     (case command of
        [] \<Rightarrow> (LaunchFailure ''empty command'', fs)
      | prog # args \<Rightarrow>
          if prog \<in> set bad then (Exited 1 [] [98, 111, 111, 109], fs)
          else if prog = ''tifftopnm'' then
            (case fs (last args) of
               None \<Rightarrow> (Exited 1 [] [], fs)
             | Some d \<Rightarrow> (Exited 0 (80 # d) [], fs))
          else if prog = ''pbmtodjvurle'' then
            (case input_data of
               None \<Rightarrow> (Exited 1 [] [], fs)
             | Some d \<Rightarrow> (Exited 0 (82 # d) [], fs))
          else if prog = ''csepdjvu'' then
            (case input_data of
               None \<Rightarrow> (Exited 1 [] [], fs)
             | Some d \<Rightarrow> (Exited 0 [] [], fs(last args \<mapsto> 68 # d)))
          else if prog = ''cjb2'' \<or> prog = ''c44'' then
            (case fs (last (butlast args)) of
               None \<Rightarrow> (Exited 1 [] [], fs)
             | Some d \<Rightarrow> (Exited 0 [] [], fs(last args \<mapsto> 68 # d)))
          else if prog = ''djvm'' then
            (Exited 0 [] [], fs(args ! 1 \<mapsto> [77]))
          else (LaunchFailure ''[Errno 2] No such file or directory'', fs))"

definition demo_image_open :: "filesystem \<Rightarrow> path \<Rightarrow> string + string" where
  "demo_image_open fs p =
     (if fs p = Some [1] then Inr ''1''
      else if fs p = Some [2] then Inr ''RGB''
      else if fs p = Some [3] then Inr ''L''
      else if fs p = Some [4] then Inr ''CMYK''
      else Inl ''cannot identify image file'')"

definition demo_env :: "string list \<Rightarrow> string list \<Rightarrow> env" where
  "demo_env bad listing =
     \<lparr>exec = demo_exec bad,
      decode = (\<lambda>b. Inr (map (\<lambda>x. char_of (unat x)) b)),
      listdir = (\<lambda>fs d. if d = ''in'' then listing else []),
      image_open = demo_image_open,
      mkstemp = (\<lambda>fs d prefix. Inr (path_join d (prefix @ ''0001''))),
      mkdtemp = (\<lambda>fs prefix. ''/tmp/'' @ prefix @ ''0000''),
      confirm = True,
      as_completed = rev\<rparr>"

definition demo_listing :: "string list" where
  "demo_listing =
     [''page3.tif'', ''notes.txt'', ''page1.tif'', ''foreground'', ''page4.tif'', ''page2.tif'',
      ''background'']"

definition demo_config :: config where
  "demo_config =
     \<lparr>inputdir = ''in'', outputfile = None, resolution = 300, cr_cjb2 = 1,
      cr_c44 = ''74,89,99'', temp_dir = Some ''tmp'', keep_temp = False, threads = 2\<rparr>"

section \<open>Properties\<close>

subsection \<open>\<open>run_command\<close>\<close>

lemma py_format_failed:
  "py_format ''Command {} failed with return code {}: {}'' [a, b] =
     Inl (IndexError ''Replacement index 2 out of range for positional args tuple'')"
  by (simp add: py_format_def str_nat.simps)

lemma py_format_error:
  "py_format ''Error running command {}: {}'' [a, b] =
     Inr (''Error running command '' @ a @ '': '' @ b)"
  by (simp add: py_format_def)

lemmas run_command_unfold =
  run_command_def run_command_try_def Let_def py_format_failed py_format_error

text \<open>Every call starts exactly one process: nothing is tried a second time.\<close>

lemma run_command_invocations:
  "invocations (snd (run_command e command input_data w)) =
     invocations w @ [(command, input_data)]"
  by (simp add: run_command_unfold split: prod.splits proc_outcome.splits sum.splits)

text \<open>
  The call returns exactly when the process was started, exited with status 0 and wrote
  a standard error that the runtime can decode; it then returns what the process wrote.
\<close>

lemma run_command_returns_iff:
  "fst (run_command e command input_data w) = Inr r \<longleftrightarrow>
     (\<exists>fs t. exec e command input_data (files w) = (Exited 0 (fst r) (snd r), fs) \<and>
             decode e (snd r) = Inr t)"
  by (auto simp add: run_command_unfold split: prod.splits proc_outcome.splits sum.splits)

text \<open>Whatever the call raises is a \<open>CommandError\<close> whose \<open>stderr\<close> is empty.\<close>

lemma run_command_raises:
  "fst (run_command e command input_data w) = Inl ex \<Longrightarrow> \<exists>message. ex = CommandError message []"
  by (auto simp add: run_command_unfold
      split: prod.splits proc_outcome.splits sum.splits if_splits)

lemma run_command_launch_failure:
  "exec e command input_data (files w) = (LaunchFailure msg, fs) \<Longrightarrow>
   fst (run_command e command input_data w) =
     Inl (CommandError (''Error running command '' @ str_list command @ '': '' @ msg) [])"
  by (simp add: run_command_unfold)

text \<open>
  A process that exits with a status other than 0: building the message of line 76 raises
  \<open>IndexError\<close> (three fields, two arguments), the \<open>except\<close> clause turns that into a
  \<open>CommandError\<close>, and neither the status nor the standard error of the process is in it.
\<close>

lemma run_command_nonzero_exit:
  "exec e command input_data (files w) = (Exited returncode out err, fs) \<Longrightarrow>
   returncode \<noteq> 0 \<Longrightarrow> decode e err = Inr t \<Longrightarrow>
   fst (run_command e command input_data w) =
     Inl (CommandError
           (''Error running command '' @ str_list command @
            '': Replacement index 2 out of range for positional args tuple'') [])"
  by (simp add: run_command_unfold)

text \<open>
  C3, at a failing input: \<open>cjb2\<close> exits with status 1 and writes \<open>boom\<close> to its standard
  error. The \<open>CommandError\<close> that \<open>run_command\<close> raises has an empty \<open>stderr\<close>, and
  its message holds the command and the text of an \<open>IndexError\<close>, not the exit status.
\<close>

theorem run_command_exit_status_1:
  "exec (demo_env [''cjb2''] []) [''cjb2'', ''in/page1.tif''] None demo_files =
     (Exited 1 [] [98, 111, 111, 109], demo_files) \<and>
   decode (demo_env [''cjb2''] []) [98, 111, 111, 109] = Inr ''boom'' \<and>
   fst (run_command (demo_env [''cjb2''] []) [''cjb2'', ''in/page1.tif''] None demo_world) =
     Inl (CommandError
           (''Error running command '' @ str_list [''cjb2'', ''in/page1.tif''] @
            '': Replacement index 2 out of range for positional args tuple'') [])"
proof -
  have ex: "exec (demo_env [''cjb2''] []) [''cjb2'', ''in/page1.tif''] None (files demo_world) =
      (Exited 1 [] [98, 111, 111, 109], demo_files)"
    by (simp add: demo_env_def demo_exec_def demo_world_def)
  have de: "decode (demo_env [''cjb2''] []) [98, 111, 111, 109] = Inr ''boom''"
    by code_simp
  from run_command_nonzero_exit [OF ex _ de] ex de show ?thesis
    by (simp add: demo_world_def)
qed

subsection \<open>The names of a page\<close>

text \<open>
  C9, at a failing input: the directory entries \<open>.tif\<close> and \<open>.tif.tif\<close> both end in
  \<open>.tif\<close> and are different names, and \<open>process_image\<close> derives the same output path
  for both, since \<open>os.path.splitext\<close> finds no extension in a name that is dots up to its
  last dot.
\<close>

theorem output_path_of_collision:
  "endswith ''.tif'' ''.tif'' \<and> endswith ''.tif.tif'' ''.tif'' \<and> ''.tif'' \<noteq> ''.tif.tif'' \<and>
   output_path_of td ''.tif'' = path_join td ''.tif.djvu'' \<and>
   output_path_of td ''.tif.tif'' = path_join td ''.tif.djvu''"
  by (simp add: endswith_def output_path_of_def page_name_of_def splitext_def rfind_def
      splitext_loop.simps)

text \<open>
  Apart from such names the paths are distinct: for stems without a separator that are
  not made of dots only, \<open>os.path.splitext\<close> removes the \<open>.tif\<close>, and two names give
  the same output path only if they are the same name.
\<close>

lemma splitext_loop_iff:
  "splitext_loop p i n \<longleftrightarrow> (\<exists>j. i \<le> j \<and> j < n \<and> p ! j \<noteq> CHR ''.'')"
proof (induction p i n rule: splitext_loop.induct)
  case (1 p i n)
  show ?case
  proof (cases "i < n")
    case False
    then show ?thesis
      by (simp add: splitext_loop.simps [of p i n])
  next
    case True
    show ?thesis
    proof (cases "p ! i \<noteq> CHR ''.''")
      case True
      with \<open>i < n\<close> show ?thesis
        by (auto simp add: splitext_loop.simps [of p i n])
    next
      case False
      with \<open>i < n\<close> have "splitext_loop p i n = splitext_loop p (Suc i) n"
        by (simp add: splitext_loop.simps [of p i n])
      also from \<open>i < n\<close> False have "\<dots> = (\<exists>j. Suc i \<le> j \<and> j < n \<and> p ! j \<noteq> CHR ''.'')"
        by (intro "1.IH") simp_all
      also from False have "\<dots> = (\<exists>j. i \<le> j \<and> j < n \<and> p ! j \<noteq> CHR ''.'')"
        by (metis Suc_leD Suc_leI le_neq_implies_less)
      finally show ?thesis .
    qed
  qed
qed

lemma rfind_dot_tif: "rfind (s @ ''.tif'') CHR ''.'' = int (length s)"
  by (simp add: rfind_def)

lemma rfind_absent: "c \<notin> set p \<Longrightarrow> rfind p c = - 1"
  by (simp add: rfind_def)

lemma splitext_tif:
  assumes "plain_stem s"
  shows "splitext (s @ ''.tif'') = (s, ''.tif'')"
proof -
  from assms obtain j where j: "j < length s" "s ! j \<noteq> CHR ''.''"
    by (auto simp add: plain_stem_def in_set_conv_nth)
  then have "(s @ ''.tif'') ! j \<noteq> CHR ''.''"
    by (simp add: nth_append)
  with j(1) have "splitext_loop (s @ ''.tif'') 0 (length s)"
    by (auto simp add: splitext_loop_iff)
  moreover from assms have "rfind (s @ ''.tif'') CHR ''/'' = - 1"
    by (intro rfind_absent) (simp add: plain_stem_def)
  ultimately show ?thesis
    by (simp add: splitext_def rfind_dot_tif)
qed

lemma path_join_relative:
  "b \<noteq> [] \<Longrightarrow> hd b \<noteq> CHR ''/'' \<Longrightarrow>
   path_join a b = (if a = [] \<or> last a = CHR ''/'' then a else a @ ''/'') @ b"
  by (simp add: path_join_def)

lemma path_join_inject:
  assumes "b \<noteq> []" "hd b \<noteq> CHR ''/''" "b' \<noteq> []" "hd b' \<noteq> CHR ''/''"
    and "path_join a b = path_join a b'"
  shows "b = b'"
proof -
  let ?d = "if a = [] \<or> last a = CHR ''/'' then a else a @ ''/''"
  have "path_join a b = ?d @ b"
    using assms(1,2) by (rule path_join_relative)
  moreover have "path_join a b' = ?d @ b'"
    using assms(3,4) by (rule path_join_relative)
  ultimately have "?d @ b = ?d @ b'"
    using assms(5) by argo
  then show ?thesis
    by (rule same_append_eq [THEN iffD1])
qed

lemma djvu_relative:
  assumes "plain_stem t"
  shows "t @ ''.djvu'' \<noteq> []" and "hd (t @ ''.djvu'') \<noteq> CHR ''/''"
proof -
  from assms have t: "t \<noteq> []" and n: "CHR ''/'' \<notin> set t"
    by (auto simp add: plain_stem_def)
  from t show "t @ ''.djvu'' \<noteq> []"
    by simp
  from t have "hd t \<in> set t"
    by (rule hd_in_set)
  with n have "hd t \<noteq> CHR ''/''"
    by auto
  with t show "hd (t @ ''.djvu'') \<noteq> CHR ''/''"
    by simp
qed

lemma output_path_of_inject:
  assumes "plain_stem s" and "plain_stem s'"
    and "output_path_of td (s @ ''.tif'') = output_path_of td (s' @ ''.tif'')"
  shows "s = s'"
proof -
  have "output_path_of td (s @ ''.tif'') = path_join td (s @ ''.djvu'')"
    unfolding output_path_of_def page_name_of_def splitext_tif [OF assms(1)] fst_conv ..
  moreover have "output_path_of td (s' @ ''.tif'') = path_join td (s' @ ''.djvu'')"
    unfolding output_path_of_def page_name_of_def splitext_tif [OF assms(2)] fst_conv ..
  ultimately have "path_join td (s @ ''.djvu'') = path_join td (s' @ ''.djvu'')"
    using assms(3) by argo
  with djvu_relative [OF assms(1)] djvu_relative [OF assms(2)]
  have "s @ ''.djvu'' = s' @ ''.djvu''"
    by (rule path_join_inject)
  then show ?thesis
    by (rule append_same_eq [THEN iffD1])
qed

subsection \<open>The processes a job starts\<close>

lemma run_commandE:
  obtains r w' where "run_command e command input_data w = (r, w')"
    and "invocations w' = invocations w @ [(command, input_data)]"
  using run_command_invocations [of e command input_data w]
  by (cases "run_command e command input_data w") simp

lemma run_command_runs:
  "exec e command input_data (files w) = (Exited 0 out err, fs) \<Longrightarrow> decode e err = Inr t \<Longrightarrow>
   run_command e command input_data w =
     (Inr (out, err), \<lparr>files = fs, invocations = invocations w @ [(command, input_data)]\<rparr>)"
  by (simp add: run_command_unfold)

lemma new_invocations_append:
  "invocations w' = invocations w @ xs \<Longrightarrow> new_invocations w w' = xs"
  by (simp add: new_invocations_def)

lemma process_separated_invocations:
  "\<exists>k xs. 1 \<le> k \<and> k \<le> 4 \<and>
     invocations (snd (process_separated e c td filename w)) = invocations w @ xs \<and>
     map fst xs = take k (separated_commands c td filename) \<and>
     (\<forall>v. fst (process_separated e c td filename w) = Inr v \<longrightarrow>
        k = 4 \<and> v = Some (filename, output_path_of td filename))"
proof -
  let ?c1 = "[''tifftopnm'', background_path_of c filename]"
  let ?c2 = "[''tifftopnm'', foreground_path_of c filename]"
  let ?c3 = "[''pbmtodjvurle'']"
  let ?c4 = "[''csepdjvu'', ''-d'', str_int (resolution c), ''-q'', cr_c44 c, ''-'',
       output_path_of td filename]"
  obtain r1 w1 where 1: "run_command e ?c1 None w = (r1, w1)"
    and i1: "invocations w1 = invocations w @ [(?c1, None)]"
    by (rule run_commandE)
  show ?thesis
  proof (cases r1)
    case (Inl ex)
    with 1 i1 show ?thesis
      by (intro exI [of _ 1]) (simp add: process_separated_def separated_commands_def)
  next
    case (Inr v1)
    then obtain pam err1 where r1: "r1 = Inr (pam, err1)"
      by (cases v1) simp
    obtain r2 w2 where 2: "run_command e ?c2 None w1 = (r2, w2)"
      and i2: "invocations w2 = invocations w1 @ [(?c2, None)]"
      by (rule run_commandE)
    show ?thesis
    proof (cases r2)
      case (Inl ex)
      with 1 i1 r1 2 i2 show ?thesis
        by (intro exI [of _ 2]) (simp add: process_separated_def separated_commands_def)
    next
      case (Inr v2)
      then obtain pbm err2 where r2: "r2 = Inr (pbm, err2)"
        by (cases v2) simp
      obtain r3 w3 where 3: "run_command e ?c3 (Some pbm) w2 = (r3, w3)"
        and i3: "invocations w3 = invocations w2 @ [(?c3, Some pbm)]"
        by (rule run_commandE)
      show ?thesis
      proof (cases r3)
        case (Inl ex)
        with 1 i1 r1 2 i2 r2 3 i3 show ?thesis
          by (intro exI [of _ 3]) (simp add: process_separated_def separated_commands_def)
      next
        case (Inr v3)
        then obtain rle err3 where r3: "r3 = Inr (rle, err3)"
          by (cases v3) simp
        obtain r4 w4 where 4: "run_command e ?c4 (Some (rle @ pam)) w3 = (r4, w4)"
          and i4: "invocations w4 = invocations w3 @ [(?c4, Some (rle @ pam))]"
          by (rule run_commandE)
        from 1 i1 r1 2 i2 r2 3 i3 r3 4 i4 show ?thesis
          by (intro exI [of _ 4])
            (simp add: process_separated_def separated_commands_def split: sum.splits)
      qed
    qed
  qed
qed

lemma process_bitonal_invocations:
  "\<exists>xs. invocations (snd (process_bitonal e c td filename w)) = invocations w @ xs \<and>
     map fst xs = bitonal_commands c td filename \<and>
     (\<forall>v. fst (process_bitonal e c td filename w) = Inr v \<longrightarrow>
        v = Some (filename, output_path_of td filename))"
proof -
  let ?c1 = "[''cjb2'', ''-dpi'', str_int (resolution c), ''-losslevel'', str_int (cr_cjb2 c),
       path_join (inputdir c) filename, output_path_of td filename]"
  obtain r1 w1 where "run_command e ?c1 None w = (r1, w1)"
    and "invocations w1 = invocations w @ [(?c1, None)]"
    by (rule run_commandE)
  then show ?thesis
    by (simp add: process_bitonal_def bitonal_commands_def split: sum.splits)
qed

lemma photo_body_invocations:
  "\<exists>k xs. 1 \<le> k \<and> k \<le> 2 \<and>
     invocations (snd (photo_body e c td filename t w)) = invocations w @ xs \<and>
     map fst xs = take k (photo_commands c td filename t) \<and>
     (\<forall>v. fst (photo_body e c td filename t w) = Inr v \<longrightarrow> k = 2)"
proof -
  let ?c1 = "[''tifftopnm'', path_join (inputdir c) filename]"
  let ?c2 = "[''c44'', ''-dpi'', str_int (resolution c), ''-slice'', cr_c44 c, t,
       output_path_of td filename]"
  obtain r1 w1 where 1: "run_command e ?c1 None w = (r1, w1)"
    and i1: "invocations w1 = invocations w @ [(?c1, None)]"
    by (rule run_commandE)
  show ?thesis
  proof (cases r1)
    case (Inl ex)
    with 1 i1 show ?thesis
      by (intro exI [of _ 1]) (simp add: photo_body_def photo_commands_def)
  next
    case (Inr v1)
    then obtain d err1 where r1: "r1 = Inr (d, err1)"
      by (cases v1) simp
    let ?w2 = "w1\<lparr>files := (files w1)(t \<mapsto> d)\<rparr>"
    obtain r2 w3 where 2: "run_command e ?c2 None ?w2 = (r2, w3)"
      and i2: "invocations w3 = invocations ?w2 @ [(?c2, None)]"
      by (rule run_commandE)
    from 1 i1 r1 2 i2 show ?thesis
      by (intro exI [of _ 2]) (simp add: photo_body_def photo_commands_def split: sum.splits)
  qed
qed

lemma process_photo_invocations:
  "\<exists>k t xs. k \<le> 2 \<and>
     invocations (snd (process_photo e c td filename w)) = invocations w @ xs \<and>
     map fst xs = take k (photo_commands c td filename t) \<and>
     (\<forall>v. fst (process_photo e c td filename w) = Inr v \<longrightarrow>
        k = 2 \<and> v = Some (filename, output_path_of td filename))"
proof (cases "mkstemp e (files w) td ''djvu_temp_''")
  case (Inl msg)
  then show ?thesis
    by (intro exI [of _ 0]) (simp add: process_photo_def)
next
  case (Inr t)
  let ?w0 = "w\<lparr>files := (files w)(t \<mapsto> [])\<rparr>"
  obtain k xs where k: "1 \<le> k" "k \<le> 2"
    "invocations (snd (photo_body e c td filename t ?w0)) = invocations ?w0 @ xs"
    "map fst xs = take k (photo_commands c td filename t)"
    "\<forall>v. fst (photo_body e c td filename t ?w0) = Inr v \<longrightarrow> k = 2"
    using photo_body_invocations [of e c td filename t ?w0] by blast
  with Inr show ?thesis
    by (intro exI [of _ k] exI [of _ t] exI [of _ xs])
      (auto simp add: process_photo_def Let_def split: prod.splits sum.splits)
qed

lemma process_photo_deletes:
  "mkstemp e (files w) td ''djvu_temp_'' = Inr t \<Longrightarrow>
   files (snd (process_photo e c td filename w)) t = None"
  by (simp add: process_photo_def Let_def split: prod.splits sum.splits)

text \<open>The branches of \<open>process_image\<close>.\<close>

lemma process_image_separated:
  "endswith filename ''.tif'' \<Longrightarrow> both_layers_exist c filename w \<Longrightarrow>
   process_image e c td filename w = process_separated e c td filename w"
  by (simp add: process_image_def both_layers_exist_def)

lemma process_image_single:
  "endswith filename ''.tif'' \<Longrightarrow> \<not> both_layers_exist c filename w \<Longrightarrow>
   process_image e c td filename w =
     (case image_open e (files w) (path_join (inputdir c) filename) of
        Inl msg \<Rightarrow> (Inl (ImageOpenError msg), w)
      | Inr mode \<Rightarrow>
          if mode = ''1'' then process_bitonal e c td filename w
          else if mode = ''RGB'' \<or> mode = ''L'' then process_photo e c td filename w
          else (Inr None, w))"
  by (auto simp add: process_image_def both_layers_exist_def)

text \<open>
  The kinds of page, with the stem as \<open>process_image\<close> computes it. If the background
  and the foreground file both exist (whatever lies at the top level), the job starts the
  commands of a separated page in their order and no other, and returns the page exactly
  when all four ran. Otherwise, if the image opens with mode \<open>1\<close>, the job starts
  \<open>cjb2\<close> and nothing else; if it opens with mode \<open>L\<close> or \<open>RGB\<close>, the job starts
  \<open>tifftopnm\<close> and then \<open>c44\<close> on a temporary file. That the later commands are
  started when the earlier ones succeed is shown further below, for the separated page
  and for the photo page.
\<close>

lemma process_image_classification:
  assumes "endswith filename ''.tif''"
  shows "(both_layers_exist c filename w \<longrightarrow>
           (\<exists>k xs. 1 \<le> k \<and> k \<le> 4 \<and>
              invocations (snd (process_image e c td filename w)) = invocations w @ xs \<and>
              map fst xs = take k (separated_commands c td filename) \<and>
              (\<forall>v. fst (process_image e c td filename w) = Inr v \<longrightarrow>
                 k = 4 \<and> v = Some (filename, output_path_of td filename)))) \<and>
         (\<not> both_layers_exist c filename w \<and>
          image_open e (files w) (path_join (inputdir c) filename) = Inr ''1'' \<longrightarrow>
           (\<exists>xs. invocations (snd (process_image e c td filename w)) = invocations w @ xs \<and>
              map fst xs = bitonal_commands c td filename \<and>
              (\<forall>v. fst (process_image e c td filename w) = Inr v \<longrightarrow>
                 v = Some (filename, output_path_of td filename)))) \<and>
         (\<not> both_layers_exist c filename w \<and>
          (image_open e (files w) (path_join (inputdir c) filename) = Inr ''L'' \<or>
           image_open e (files w) (path_join (inputdir c) filename) = Inr ''RGB'') \<longrightarrow>
           (\<exists>k t xs. k \<le> 2 \<and>
              invocations (snd (process_image e c td filename w)) = invocations w @ xs \<and>
              map fst xs = take k (photo_commands c td filename t) \<and>
              (\<forall>v. fst (process_image e c td filename w) = Inr v \<longrightarrow>
                 k = 2 \<and> v = Some (filename, output_path_of td filename))))"
proof (intro conjI impI)
  assume "both_layers_exist c filename w"
  with assms have "process_image e c td filename w = process_separated e c td filename w"
    by (rule process_image_separated)
  then show "\<exists>k xs. 1 \<le> k \<and> k \<le> 4 \<and>
      invocations (snd (process_image e c td filename w)) = invocations w @ xs \<and>
      map fst xs = take k (separated_commands c td filename) \<and>
      (\<forall>v. fst (process_image e c td filename w) = Inr v \<longrightarrow>
         k = 4 \<and> v = Some (filename, output_path_of td filename))"
    using process_separated_invocations [of e c td filename w] by simp
next
  assume "\<not> both_layers_exist c filename w \<and>
    image_open e (files w) (path_join (inputdir c) filename) = Inr ''1''"
  with assms have "process_image e c td filename w = process_bitonal e c td filename w"
    by (simp add: process_image_single)
  then show "\<exists>xs. invocations (snd (process_image e c td filename w)) = invocations w @ xs \<and>
      map fst xs = bitonal_commands c td filename \<and>
      (\<forall>v. fst (process_image e c td filename w) = Inr v \<longrightarrow>
         v = Some (filename, output_path_of td filename))"
    using process_bitonal_invocations [of e c td filename w] by simp
next
  assume "\<not> both_layers_exist c filename w \<and>
    (image_open e (files w) (path_join (inputdir c) filename) = Inr ''L'' \<or>
     image_open e (files w) (path_join (inputdir c) filename) = Inr ''RGB'')"
  with assms have "process_image e c td filename w = process_photo e c td filename w"
    by (auto simp add: process_image_single)
  then show "\<exists>k t xs. k \<le> 2 \<and>
      invocations (snd (process_image e c td filename w)) = invocations w @ xs \<and>
      map fst xs = take k (photo_commands c td filename t) \<and>
      (\<forall>v. fst (process_image e c td filename w) = Inr v \<longrightarrow>
         k = 2 \<and> v = Some (filename, output_path_of td filename))"
    using process_photo_invocations [of e c td filename w] by simp
qed

lemma process_image_classification_demo:
  "map fst (invocations (snd (process_image (demo_env [] demo_listing) demo_config ''tmp''
      ''page3.tif'' demo_world))) = separated_commands demo_config ''tmp'' ''page3.tif'' \<and>
   map fst (invocations (snd (process_image (demo_env [] demo_listing) demo_config ''tmp''
      ''page1.tif'' demo_world))) = bitonal_commands demo_config ''tmp'' ''page1.tif'' \<and>
   (\<exists>t. map fst (invocations (snd (process_image (demo_env [] demo_listing) demo_config ''tmp''
      ''page2.tif'' demo_world))) = photo_commands demo_config ''tmp'' ''page2.tif'' t)"
proof -
  let ?e = "demo_env [] demo_listing"
  have iw: "invocations demo_world = []"
    by (simp add: demo_world_def)
  have e3: "endswith ''page3.tif'' ''.tif''" and e1: "endswith ''page1.tif'' ''.tif''"
    and e2: "endswith ''page2.tif'' ''.tif''"
    by (simp_all add: endswith_def)
  have b3: "both_layers_exist demo_config ''page3.tif'' demo_world"
    by code_simp
  have b1: "\<not> both_layers_exist demo_config ''page1.tif'' demo_world \<and>
      image_open ?e (files demo_world) (path_join (inputdir demo_config) ''page1.tif'') = Inr ''1''"
    by code_simp
  have b2: "\<not> both_layers_exist demo_config ''page2.tif'' demo_world \<and>
      (image_open ?e (files demo_world) (path_join (inputdir demo_config) ''page2.tif'') = Inr ''L'' \<or>
       image_open ?e (files demo_world) (path_join (inputdir demo_config) ''page2.tif'') = Inr ''RGB'')"
    by code_simp
  have r3: "fst (process_image ?e demo_config ''tmp'' ''page3.tif'' demo_world) =
      Inr (Some (''page3.tif'', ''tmp/page3.djvu''))"
    by code_simp
  have r2: "fst (process_image ?e demo_config ''tmp'' ''page2.tif'' demo_world) =
      Inr (Some (''page2.tif'', ''tmp/page2.djvu''))"
    by code_simp
  from process_image_classification [OF e3, of demo_config demo_world ?e "''tmp''"] b3 r3 iw
  have "map fst (invocations (snd (process_image ?e demo_config ''tmp'' ''page3.tif'' demo_world))) =
      separated_commands demo_config ''tmp'' ''page3.tif''"
    by (auto simp add: separated_commands_def)
  moreover
  from process_image_classification [OF e1, of demo_config demo_world ?e "''tmp''"] b1 iw
  have "map fst (invocations (snd (process_image ?e demo_config ''tmp'' ''page1.tif'' demo_world))) =
      bitonal_commands demo_config ''tmp'' ''page1.tif''"
    by auto
  moreover
  from process_image_classification [OF e2, of demo_config demo_world ?e "''tmp''"] b2 r2 iw
  have "\<exists>t. map fst (invocations (snd (process_image ?e demo_config ''tmp'' ''page2.tif'' demo_world))) =
      photo_commands demo_config ''tmp'' ''page2.tif'' t"
    by (auto simp add: photo_commands_def)
  ultimately show ?thesis
    by blast
qed

text \<open>
  C2, at a failing input: the candidate \<open>.tif\<close> ends in \<open>.tif\<close>, its stem is empty,
  and \<open>foreground/.tif\<close> and \<open>background/.tif\<close> both exist. \<open>process_image\<close> takes
  \<open>.tif\<close> for the stem (\<open>os.path.splitext\<close> finds no extension in it), looks for
  \<open>foreground/.tif.tif\<close> and \<open>background/.tif.tif\<close>, and encodes the top-level image
  with \<open>cjb2\<close>; no \<open>csepdjvu\<close> is started.
\<close>

theorem process_image_dot_tif:
  "endswith ''.tif'' ''.tif'' \<and>
   path_exists demo_world (path_join (foreground_dir demo_config) ([] @ ''.tif'')) \<and>
   path_exists demo_world (path_join (background_dir demo_config) ([] @ ''.tif'')) \<and>
   foreground_path_of demo_config ''.tif'' = ''in/foreground/.tif.tif'' \<and>
   background_path_of demo_config ''.tif'' = ''in/background/.tif.tif'' \<and>
   fst (process_image (demo_env [] demo_listing) demo_config ''tmp'' ''.tif'' demo_world) =
     Inr (Some (''.tif'', ''tmp/.tif.djvu'')) \<and>
   invocations (snd (process_image (demo_env [] demo_listing) demo_config ''tmp'' ''.tif''
       demo_world)) =
     [([''cjb2'', ''-dpi'', ''300'', ''-losslevel'', ''1'', ''in/.tif'', ''tmp/.tif.djvu''], None)]"
  by code_simp

subsection \<open>The loop over the completed jobs\<close>

lemma collect_append:
  "collect (xs @ ys) pages =
     (case collect xs pages of Inl ex \<Rightarrow> Inl ex | Inr ps \<Rightarrow> collect ys ps)"
  by (induction xs pages rule: collect.induct) simp_all

lemma collect_no_failure:
  "\<forall>r\<in>set xs. \<exists>v. r = Inr v \<Longrightarrow> \<exists>ps. collect xs pages = Inr ps"
  by (induction xs pages rule: collect.induct) simp_all

lemma collect_first_failure:
  "\<forall>r\<in>set before. \<exists>v. r = Inr v \<Longrightarrow> collect (before @ Inl ex # rest) pages = Inl ex"
  using collect_no_failure [of before pages] by (auto simp add: collect_append)



text \<open>
  C5: for a separated page whose three conversions succeed, the job starts four processes,
  and the bytes written to the standard input of \<open>csepdjvu\<close> are the output of
  \<open>pbmtodjvurle\<close> (the run-length mask) followed by the output of \<open>tifftopnm\<close> on the
  background file, and nothing else.
\<close>

theorem separated_stdin_mask_then_background:
  assumes "endswith filename ''.tif''" and "both_layers_exist c filename w"
    and "exec e [''tifftopnm'', background_path_of c filename] None (files w) =
           (Exited 0 background_pam_data err1, fs1)"
    and "decode e err1 = Inr t1"
    and "exec e [''tifftopnm'', foreground_path_of c filename] None fs1 =
           (Exited 0 foreground_pbm_data err2, fs2)"
    and "decode e err2 = Inr t2"
    and "exec e [''pbmtodjvurle''] (Some foreground_pbm_data) fs2 =
           (Exited 0 foreground_rle_data err3, fs3)"
    and "decode e err3 = Inr t3"
  shows "invocations (snd (process_image e c td filename w)) =
     invocations w @
       [([''tifftopnm'', background_path_of c filename], None),
        ([''tifftopnm'', foreground_path_of c filename], None),
        ([''pbmtodjvurle''], Some foreground_pbm_data),
        ([''csepdjvu'', ''-d'', str_int (resolution c), ''-q'', cr_c44 c, ''-'',
          output_path_of td filename],
         Some (foreground_rle_data @ background_pam_data))]"
proof -
  let ?c4 = "[''csepdjvu'', ''-d'', str_int (resolution c), ''-q'', cr_c44 c, ''-'',
       output_path_of td filename]"
  let ?w1 = "\<lparr>files = fs1, invocations = invocations w @
      [([''tifftopnm'', background_path_of c filename], None)]\<rparr>"
  let ?w2 = "\<lparr>files = fs2, invocations = invocations ?w1 @
      [([''tifftopnm'', foreground_path_of c filename], None)]\<rparr>"
  let ?w3 = "\<lparr>files = fs3, invocations = invocations ?w2 @
      [([''pbmtodjvurle''], Some foreground_pbm_data)]\<rparr>"
  have 1: "run_command e [''tifftopnm'', background_path_of c filename] None w =
      (Inr (background_pam_data, err1), ?w1)"
    using assms(3,4) by (rule run_command_runs)
  have 2: "run_command e [''tifftopnm'', foreground_path_of c filename] None ?w1 =
      (Inr (foreground_pbm_data, err2), ?w2)"
    using assms(5,6) by (intro run_command_runs) simp_all
  have 3: "run_command e [''pbmtodjvurle''] (Some foreground_pbm_data) ?w2 =
      (Inr (foreground_rle_data, err3), ?w3)"
    using assms(7,8) by (intro run_command_runs) simp_all
  obtain r4 w4 where 4: "run_command e ?c4 (Some (foreground_rle_data @ background_pam_data)) ?w3 =
      (r4, w4)"
    and i4: "invocations w4 = invocations ?w3 @
      [(?c4, Some (foreground_rle_data @ background_pam_data))]"
    by (rule run_commandE)
  from assms(1,2) have "process_image e c td filename w = process_separated e c td filename w"
    by (rule process_image_separated)
  with 1 2 3 4 i4 show ?thesis
    by (simp add: process_separated_def split: sum.splits)
qed

theorem separated_stdin_mask_then_background_witness:
  "invocations (snd (process_image (demo_env [] demo_listing) demo_config ''tmp'' ''page3.tif''
      demo_world)) =
     [([''tifftopnm'', ''in/background/page3.tif''], None),
      ([''tifftopnm'', ''in/foreground/page3.tif''], None),
      ([''pbmtodjvurle''], Some [80, 1, 1]),
      ([''csepdjvu'', ''-d'', ''300'', ''-q'', ''74,89,99'', ''-'', ''tmp/page3.djvu''],
       Some ([82, 80, 1, 1] @ [80, 2, 2]))]"
proof -
  let ?e = "demo_env [] demo_listing"
  have bp: "background_path_of demo_config ''page3.tif'' = ''in/background/page3.tif''"
    and fp: "foreground_path_of demo_config ''page3.tif'' = ''in/foreground/page3.tif''"
    and op: "output_path_of ''tmp'' ''page3.tif'' = ''tmp/page3.djvu''"
    and res: "str_int (resolution demo_config) = ''300''"
    and q: "cr_c44 demo_config = ''74,89,99''"
    by code_simp+
  have e3: "endswith ''page3.tif'' ''.tif''"
    by (simp add: endswith_def)
  have b3: "both_layers_exist demo_config ''page3.tif'' demo_world"
    by code_simp
  have x1: "exec ?e [''tifftopnm'', background_path_of demo_config ''page3.tif''] None
      (files demo_world) = (Exited 0 [80, 2, 2] [], files demo_world)"
    by (simp add: bp demo_env_def demo_exec_def demo_world_def demo_files_def)
  have x2: "exec ?e [''tifftopnm'', foreground_path_of demo_config ''page3.tif''] None
      (files demo_world) = (Exited 0 [80, 1, 1] [], files demo_world)"
    by (simp add: fp demo_env_def demo_exec_def demo_world_def demo_files_def)
  have x3: "exec ?e [''pbmtodjvurle''] (Some [80, 1, 1]) (files demo_world) =
      (Exited 0 [82, 80, 1, 1] [], files demo_world)"
    by (simp add: demo_env_def demo_exec_def)
  have d: "decode ?e [] = Inr []"
    by (simp add: demo_env_def)
  from separated_stdin_mask_then_background [OF e3 b3 x1 d x2 d x3 d, of "''tmp''"]
  show ?thesis
    by (simp add: bp fp op res q demo_world_def)
qed

subsection \<open>The temporary file of a photo page\<close>

text \<open>
  When \<open>tifftopnm\<close> succeeds, \<open>c44\<close> is started on a file system in which the
  temporary file holds the raster \<open>tifftopnm\<close> wrote.
\<close>

lemma photo_body_writes_raster:
  assumes "exec e [''tifftopnm'', path_join (inputdir c) filename] None (files w) =
      (Exited 0 tiff_to_pbm_data err, fs)"
    and "decode e err = Inr t"
  shows "photo_body e c td filename temp_file_name w =
     (case run_command e
             [''c44'', ''-dpi'', str_int (resolution c), ''-slice'', cr_c44 c,
              temp_file_name, output_path_of td filename]
             None
             \<lparr>files = fs(temp_file_name \<mapsto> tiff_to_pbm_data),
              invocations = invocations w @
                [([''tifftopnm'', path_join (inputdir c) filename], None)]\<rparr> of
        (Inl ex, w3) \<Rightarrow> (Inl ex, w3)
      | (Inr _, w3) \<Rightarrow> (Inr (), w3))"
  using run_command_runs [OF assms] by (simp add: photo_body_def)

text \<open>
  C7: for a photo page (a single image of mode \<open>RGB\<close> or \<open>L\<close>) with its
  temporary file created, the file does not exist when the job is over, however the job
  ended: with the page, or with the error of \<open>tifftopnm\<close> or of \<open>c44\<close>. And when
  \<open>tifftopnm\<close> succeeds, the job is what \<open>c44\<close> does when started on that very file,
  in a file system where the file holds the raster \<open>tifftopnm\<close> wrote, followed by the
  deletion of the file (for both outcomes of \<open>c44\<close>).
\<close>

theorem photo_temporary_file_deleted:
  assumes "endswith filename ''.tif''" and "\<not> both_layers_exist c filename w"
    and "image_open e (files w) (path_join (inputdir c) filename) = Inr ''RGB'' \<or>
         image_open e (files w) (path_join (inputdir c) filename) = Inr ''L''"
    and "mkstemp e (files w) td ''djvu_temp_'' = Inr temp_file_name"
  shows "files (snd (process_image e c td filename w)) temp_file_name = None \<and>
     (\<forall>tiff_to_pbm_data err fs t.
        exec e [''tifftopnm'', path_join (inputdir c) filename] None
          ((files w)(temp_file_name \<mapsto> [])) = (Exited 0 tiff_to_pbm_data err, fs) \<and>
        decode e err = Inr t \<longrightarrow>
        process_image e c td filename w =
          (case run_command e
                  [''c44'', ''-dpi'', str_int (resolution c), ''-slice'', cr_c44 c,
                   temp_file_name, output_path_of td filename]
                  None
                  \<lparr>files = fs(temp_file_name \<mapsto> tiff_to_pbm_data),
                   invocations = invocations w @
                     [([''tifftopnm'', path_join (inputdir c) filename], None)]\<rparr> of
             (Inl ex, w3) \<Rightarrow> (Inl ex, w3\<lparr>files := (files w3)(temp_file_name := None)\<rparr>)
           | (Inr _, w3) \<Rightarrow>
               (Inr (Some (filename, output_path_of td filename)),
                w3\<lparr>files := (files w3)(temp_file_name := None)\<rparr>)))"
proof (intro conjI allI impI)
  from assms(1-3) have eq: "process_image e c td filename w = process_photo e c td filename w"
    by (auto simp add: process_image_single)
  with assms(4) show "files (snd (process_image e c td filename w)) temp_file_name = None"
    by (simp add: process_photo_deletes)
  fix tiff_to_pbm_data err fs t
  let ?w0 = "w\<lparr>files := (files w)(temp_file_name \<mapsto> [])\<rparr>"
  assume "exec e [''tifftopnm'', path_join (inputdir c) filename] None
          ((files w)(temp_file_name \<mapsto> [])) = (Exited 0 tiff_to_pbm_data err, fs) \<and>
        decode e err = Inr t"
  then have "exec e [''tifftopnm'', path_join (inputdir c) filename] None (files ?w0) =
      (Exited 0 tiff_to_pbm_data err, fs)" and "decode e err = Inr t"
    by simp_all
  then have "photo_body e c td filename temp_file_name ?w0 =
     (case run_command e
             [''c44'', ''-dpi'', str_int (resolution c), ''-slice'', cr_c44 c,
              temp_file_name, output_path_of td filename]
             None
             \<lparr>files = fs(temp_file_name \<mapsto> tiff_to_pbm_data),
              invocations = invocations ?w0 @
                [([''tifftopnm'', path_join (inputdir c) filename], None)]\<rparr> of
        (Inl ex, w3) \<Rightarrow> (Inl ex, w3)
      | (Inr _, w3) \<Rightarrow> (Inr (), w3))"
    by (rule photo_body_writes_raster)
  with assms(4) show "process_image e c td filename w =
          (case run_command e
                  [''c44'', ''-dpi'', str_int (resolution c), ''-slice'', cr_c44 c,
                   temp_file_name, output_path_of td filename]
                  None
                  \<lparr>files = fs(temp_file_name \<mapsto> tiff_to_pbm_data),
                   invocations = invocations w @
                     [([''tifftopnm'', path_join (inputdir c) filename], None)]\<rparr> of
             (Inl ex, w3) \<Rightarrow> (Inl ex, w3\<lparr>files := (files w3)(temp_file_name := None)\<rparr>)
           | (Inr _, w3) \<Rightarrow>
               (Inr (Some (filename, output_path_of td filename)),
                w3\<lparr>files := (files w3)(temp_file_name := None)\<rparr>))"
    unfolding eq by (simp add: process_photo_def Let_def split: prod.splits sum.splits)
qed

theorem photo_temporary_file_deleted_witness:
  "files (snd (process_image (demo_env [] demo_listing) demo_config ''tmp'' ''page2.tif''
       demo_world)) ''tmp/page2.djvu'' = Some [68, 80, 2] \<and>
   files (snd (process_image (demo_env [] demo_listing) demo_config ''tmp'' ''page2.tif''
       demo_world)) ''tmp/djvu_temp_0001'' = None \<and>
   isl (fst (process_image (demo_env [''c44''] demo_listing) demo_config ''tmp''
       ''page2.tif'' demo_world)) \<and>
   files (snd (process_image (demo_env [''c44''] demo_listing) demo_config ''tmp''
       ''page2.tif'' demo_world)) ''tmp/djvu_temp_0001'' = None"
proof -
  let ?e = "demo_env [] demo_listing"
  let ?bad = "demo_env [''c44''] demo_listing"
  let ?t = "''tmp/djvu_temp_0001''"
  have e2: "endswith ''page2.tif'' ''.tif''"
    by (simp add: endswith_def)
  have b2: "\<not> both_layers_exist demo_config ''page2.tif'' demo_world"
    by code_simp
  have fp: "path_join (inputdir demo_config) ''page2.tif'' = ''in/page2.tif''"
    and op: "output_path_of ''tmp'' ''page2.tif'' = ''tmp/page2.djvu''"
    by code_simp+
  have m2: "image_open ?e (files demo_world) (path_join (inputdir demo_config) ''page2.tif'') =
        Inr ''RGB'' \<or>
      image_open ?e (files demo_world) (path_join (inputdir demo_config) ''page2.tif'') =
        Inr ''L''"
    by code_simp
  have m2': "image_open ?bad (files demo_world) (path_join (inputdir demo_config) ''page2.tif'') =
        Inr ''RGB'' \<or>
      image_open ?bad (files demo_world) (path_join (inputdir demo_config) ''page2.tif'') =
        Inr ''L''"
    by code_simp
  have t: "mkstemp ?e (files demo_world) ''tmp'' ''djvu_temp_'' = Inr ?t"
    and t': "mkstemp ?bad (files demo_world) ''tmp'' ''djvu_temp_'' = Inr ?t"
    by code_simp+
  have x: "exec ?e [''tifftopnm'', path_join (inputdir demo_config) ''page2.tif''] None
      ((files demo_world)(?t \<mapsto> [])) = (Exited 0 [80, 2] [], (files demo_world)(?t \<mapsto> [])) \<and>
    decode ?e [] = Inr []"
    by (simp add: fp demo_env_def demo_exec_def demo_world_def demo_files_def)
  have r: "isl (fst (process_image ?bad demo_config ''tmp'' ''page2.tif'' demo_world))"
    by code_simp
  note good = photo_temporary_file_deleted [OF e2 b2 m2 t]
  from good have del: "files (snd (process_image ?e demo_config ''tmp'' ''page2.tif'' demo_world)) ?t =
      None"
    by blast
  from good x have "process_image ?e demo_config ''tmp'' ''page2.tif'' demo_world =
      (case run_command ?e
              [''c44'', ''-dpi'', str_int (resolution demo_config), ''-slice'', cr_c44 demo_config,
               ?t, output_path_of ''tmp'' ''page2.tif'']
              None
              \<lparr>files = ((files demo_world)(?t \<mapsto> []))(?t \<mapsto> [80, 2]),
               invocations = invocations demo_world @
                 [([''tifftopnm'', path_join (inputdir demo_config) ''page2.tif''], None)]\<rparr> of
         (Inl ex, w3) \<Rightarrow> (Inl ex, w3\<lparr>files := (files w3)(?t := None)\<rparr>)
       | (Inr _, w3) \<Rightarrow>
           (Inr (Some (''page2.tif'', output_path_of ''tmp'' ''page2.tif'')),
            w3\<lparr>files := (files w3)(?t := None)\<rparr>))"
    by blast
  then have out: "files (snd (process_image ?e demo_config ''tmp'' ''page2.tif'' demo_world))
      ''tmp/page2.djvu'' = Some [68, 80, 2]"
    by (simp add: op run_command_unfold demo_env_def demo_exec_def)
  from photo_temporary_file_deleted [OF e2 b2 m2' t'] out del r show ?thesis
    by blast
qed

subsection \<open>An image that cannot be opened\<close>



subsection \<open>What the jobs return\<close>

text \<open>
  A job starts only programs of \<open>job_programs\<close> (so never \<open>djvm\<close>), the list of
  processes only grows, and a page it returns is its own name with its own output path.
\<close>

lemma take_programs:
  "map fst xs = take k cmds \<Longrightarrow> \<forall>cmd\<in>set cmds. hd cmd \<in> set job_programs \<Longrightarrow>
   \<forall>i\<in>set xs. hd (fst i) \<in> set job_programs"
proof
  fix i assume a: "map fst xs = take k cmds" "\<forall>cmd\<in>set cmds. hd cmd \<in> set job_programs" "i \<in> set xs"
  then have "fst i \<in> set (take k cmds)"
    by (metis image_eqI list.set_map)
  then have "fst i \<in> set cmds"
    by (rule in_set_takeD)
  with a(2) show "hd (fst i) \<in> set job_programs"
    by blast
qed

lemma process_image_result:
  "\<exists>xs. invocations (snd (process_image e c td filename w)) = invocations w @ xs \<and>
     (\<forall>i\<in>set xs. hd (fst i) \<in> set job_programs) \<and>
     (\<forall>x. fst (process_image e c td filename w) = Inr (Some x) \<longrightarrow>
        x = (filename, output_path_of td filename))"
proof (cases "endswith filename ''.tif''")
  case False
  then show ?thesis
    by (simp add: process_image_def)
next
  case tif: True
  show ?thesis
  proof (cases "both_layers_exist c filename w")
    case True
    with tif have eq: "process_image e c td filename w = process_separated e c td filename w"
      by (rule process_image_separated)
    obtain k xs where "invocations (snd (process_separated e c td filename w)) = invocations w @ xs"
      and m: "map fst xs = take k (separated_commands c td filename)"
      and "\<forall>v. fst (process_separated e c td filename w) = Inr v \<longrightarrow>
        k = 4 \<and> v = Some (filename, output_path_of td filename)"
      using process_separated_invocations [of e c td filename w] by blast
    moreover from m have "\<forall>i\<in>set xs. hd (fst i) \<in> set job_programs"
      by (rule take_programs) (simp add: separated_commands_def job_programs_def)
    ultimately show ?thesis
      unfolding eq by auto
  next
    case single: False
    note eq = process_image_single [OF tif single, of e td]
    show ?thesis
    proof (cases "image_open e (files w) (path_join (inputdir c) filename)")
      case (Inl msg)
      with eq show ?thesis
        by simp
    next
      case (Inr mode)
      consider (bitonal) "mode = ''1''" | (photo) "mode \<noteq> ''1''" "mode = ''RGB'' \<or> mode = ''L''"
        | (other) "mode \<noteq> ''1''" "\<not> (mode = ''RGB'' \<or> mode = ''L'')"
        by blast
      then show ?thesis
      proof cases
        case bitonal
        with eq Inr have eq': "process_image e c td filename w = process_bitonal e c td filename w"
          by simp
        obtain xs where "invocations (snd (process_bitonal e c td filename w)) = invocations w @ xs"
          and m: "map fst xs = bitonal_commands c td filename"
          and "\<forall>v. fst (process_bitonal e c td filename w) = Inr v \<longrightarrow>
             v = Some (filename, output_path_of td filename)"
          using process_bitonal_invocations [of e c td filename w] by blast
        moreover from m have "map fst xs = take 1 (bitonal_commands c td filename)"
          by (simp add: bitonal_commands_def)
        then have "\<forall>i\<in>set xs. hd (fst i) \<in> set job_programs"
          by (rule take_programs) (simp add: bitonal_commands_def job_programs_def)
        ultimately show ?thesis
          unfolding eq' by auto
      next
        case photo
        with eq Inr have eq': "process_image e c td filename w = process_photo e c td filename w"
          by simp
        obtain k t xs where "invocations (snd (process_photo e c td filename w)) = invocations w @ xs"
          and m: "map fst xs = take k (photo_commands c td filename t)"
          and "\<forall>v. fst (process_photo e c td filename w) = Inr v \<longrightarrow>
             k = 2 \<and> v = Some (filename, output_path_of td filename)"
          using process_photo_invocations [of e c td filename w] by blast
        moreover from m have "\<forall>i\<in>set xs. hd (fst i) \<in> set job_programs"
          by (rule take_programs) (simp add: photo_commands_def job_programs_def)
        ultimately show ?thesis
          unfolding eq' by auto
      next
        case other
        with eq Inr show ?thesis
          by simp
      qed
    qed
  qed
qed

lemma run_jobs_results:
  "\<exists>xs. invocations (snd (run_jobs e c td names w)) = invocations w @ xs \<and>
     (\<forall>i\<in>set xs. hd (fst i) \<in> set job_programs) \<and>
     list_all2 (result_of td) names (fst (run_jobs e c td names w))"
proof (induction names arbitrary: w)
  case Nil
  show ?case by simp
next
  case (Cons filename rest)
  obtain r w1 where p: "process_image e c td filename w = (r, w1)"
    by (cases "process_image e c td filename w")
  obtain xs where xs: "invocations w1 = invocations w @ xs"
    "\<forall>i\<in>set xs. hd (fst i) \<in> set job_programs"
    "\<forall>x. r = Inr (Some x) \<longrightarrow> x = (filename, output_path_of td filename)"
    using process_image_result [of e c td filename w] p by auto
  obtain ys where ys: "invocations (snd (run_jobs e c td rest w1)) = invocations w1 @ ys"
    "\<forall>i\<in>set ys. hd (fst i) \<in> set job_programs"
    "list_all2 (result_of td) rest (fst (run_jobs e c td rest w1))"
    using Cons.IH [of w1] by blast
  from xs(3) have "result_of td filename r"
    by (auto simp add: result_of_def split: sum.splits option.splits)
  with p xs ys show ?case
    by (intro exI [of _ "xs @ ys"]) (auto split: prod.splits)
qed

subsection \<open>Collection, order and assembly\<close>

lemma output_path_of_nonempty: "output_path_of td filename \<noteq> []"
  by (simp add: output_path_of_def path_join_def)

lemma pages_returned_Cons:
  "pages_returned (n # names) (r # rs) =
     (case r of Inr (Some x) \<Rightarrow> n # pages_returned names rs | _ \<Rightarrow> pages_returned names rs)"
  by (simp add: pages_returned_def split: sum.splits option.splits)

lemma collect_pages:
  "list_all2 (result_of td) names rs \<Longrightarrow> collect rs acc = Inr pages \<Longrightarrow>
   pages = acc @ map (\<lambda>n. (n, output_path_of td n)) (pages_returned names rs)"
proof (induction names rs arbitrary: acc rule: list_all2_induct)
  case Nil
  then show ?case by (simp add: pages_returned_def)
next
  case (Cons n names r rs)
  show ?case
  proof (cases r)
    case (Inl ex)
    with Cons.prems show ?thesis by simp
  next
    case (Inr v)
    show ?thesis
    proof (cases v)
      case None
      with Inr Cons show ?thesis
        by (simp add: pages_returned_Cons)
    next
      case (Some x)
      with Inr Cons.hyps(1) have x: "x = (n, output_path_of td n)"
        by (simp add: result_of_def)
      with Inr Some Cons.prems have "collect rs (acc @ [(n, output_path_of td n)]) = Inr pages"
        by (simp add: output_path_of_nonempty)
      then have "pages = (acc @ [(n, output_path_of td n)]) @
          map (\<lambda>n. (n, output_path_of td n)) (pages_returned names rs)"
        by (rule Cons.IH)
      with Inr Some show ?thesis
        by (simp add: pages_returned_Cons)
    qed
  qed
qed

lemma pages_returned_distinct:
  "distinct names \<Longrightarrow> distinct (pages_returned names rs)"
proof -
  assume "distinct names"
  then have "distinct (map fst (zip names rs))"
    by (simp add: map_fst_zip_take)
  then show ?thesis
    unfolding pages_returned_def by (rule distinct_map_filter)
qed

lemma pages_returned_subset: "set (pages_returned names rs) \<subseteq> set names"
  by (auto simp add: pages_returned_def dest: set_zip_leftD)

text \<open>
  In a sorted listing the index of a name grows with the name, so sorting by the index
  sorts by the name.
\<close>

lemma list_index_nth:
  "x \<in> set xs \<Longrightarrow> list_index xs x < length xs \<and> xs ! list_index xs x = x"
  by (induction xs) (auto simp add: list_index_def)

lemma list_index_le_sorted:
  assumes "sorted xs" "a \<in> set xs" "b \<in> set xs" "list_index xs a \<le> list_index xs b"
  shows "a \<le> b"
proof -
  from assms(2,3) have "xs ! list_index xs a = a" "xs ! list_index xs b = b"
    "list_index xs b < length xs"
    by (simp_all add: list_index_nth)
  with sorted_nth_mono [OF assms(1,4)] show ?thesis
    by simp
qed

lemma restore_order_sorted:
  assumes "restore_order listing pages = Inr ps" and "sorted listing"
  shows "sorted (map fst ps) \<and> mset ps = mset pages"
proof -
  let ?key = "\<lambda>x. list_index listing (fst x)"
  from assms(1) have none: "find (\<lambda>x. fst x \<notin> set listing) pages = None"
    and ps: "ps = sort_key ?key pages"
    by (auto simp add: restore_order_def split: option.splits)
  from none have mem: "\<forall>x\<in>set pages. fst x \<in> set listing"
    by (auto simp add: find_None_iff)
  have "sorted (map ?key ps)"
    unfolding ps by (rule sorted_sort_key)
  then have "sorted_wrt (\<lambda>x y. ?key x \<le> ?key y) ps"
    by (simp add: sorted_map)
  then have "sorted_wrt (\<lambda>x y. fst x \<le> fst y) ps"
  proof (rule sorted_wrt_mono_rel [rotated])
    fix x y assume "x \<in> set ps" "y \<in> set ps" "?key x \<le> ?key y"
    with mem ps show "fst x \<le> fst y"
      by (intro list_index_le_sorted [OF assms(2)]) simp_all
  qed
  then show ?thesis
    by (simp add: sorted_map ps)
qed

lemma main_unfold:
  assumes "\<not> (path_exists w (outputfile_of c) \<and> \<not> confirm e)" and "0 < threads c"
  shows "main e c w =
     (case collect (fst (run_pool e c w)) [] of
        Inl ex \<Rightarrow> (Inl ex, snd (run_pool e c w))
      | Inr pages \<Rightarrow>
          (case restore_order
                  (sort (listdir e (files (snd (run_pool e c w))) (inputdir c))) pages of
             Inl ex \<Rightarrow> (Inl ex, snd (run_pool e c w))
           | Inr pages' \<Rightarrow>
               assemble e c (outputfile_of c) (temp_dir_obj_of e c w) (map snd pages')
                 (snd (run_pool e c w))))"
  using assms by (auto simp add: main_def case_prod_beta)

lemma main_stops_early:
  assumes "(path_exists w (outputfile_of c) \<and> \<not> confirm e) \<or> threads c \<le> 0"
  shows "snd (main e c w) = w"
  using assms by (auto simp add: main_def)

lemma assemble_invocations:
  "invocations (snd (assemble e c out tdo pages w)) =
     invocations w @ (if pages = [] then [] else [([''djvm'', ''-c'', out] @ pages, None)])"
proof (cases "pages = []")
  case True
  then show ?thesis by (simp add: assemble_def)
next
  case False
  let ?w1 = "if path_exists w out then w\<lparr>files := (files w)(out := None)\<rparr> else w"
  obtain r w2 where "run_command e ([''djvm'', ''-c'', out] @ pages) None ?w1 = (r, w2)"
    and "invocations w2 = invocations ?w1 @ [([''djvm'', ''-c'', out] @ pages, None)]"
    by (rule run_commandE)
  with False show ?thesis
    by (auto simp add: assemble_def Let_def split: sum.splits option.splits)
qed

lemma run_pool_results:
  "\<exists>xs. invocations (snd (run_pool e c w)) = invocations w @ xs \<and>
     (\<forall>i\<in>set xs. hd (fst i) \<in> set job_programs) \<and>
     list_all2 (result_of (temp_dir_of e c w)) (as_completed e (submitted e c w))
       (fst (run_pool e c w))"
  unfolding run_pool_def by (rule run_jobs_results)

lemma djvm_not_job_program: "''djvm'' \<notin> set job_programs"
  by (simp add: job_programs_def)

lemma no_djvm:
  "invocations w' = invocations w @ xs \<Longrightarrow> \<forall>i\<in>set xs. hd (fst i) \<in> set job_programs \<Longrightarrow>
   \<forall>i\<in>set (new_invocations w w'). hd (fst i) \<noteq> ''djvm''"
  using djvm_not_job_program by (auto simp add: new_invocations_def)

lemma restore_order_Nil: "restore_order listing [] = Inr []"
  by (simp add: restore_order_def)

text \<open>
  A job that returns \<open>None\<close> has changed nothing, and a loop that ends with no page
  has seen only such jobs.
\<close>

lemma process_image_None:
  assumes "fst (process_image e c td filename w) = Inr None"
  shows "snd (process_image e c td filename w) = w"
proof (cases "endswith filename ''.tif''")
  case False
  then show ?thesis
    by (simp add: process_image_def)
next
  case tif: True
  show ?thesis
  proof (cases "both_layers_exist c filename w")
    case True
    with tif have "process_image e c td filename w = process_separated e c td filename w"
      by (rule process_image_separated)
    with assms process_separated_invocations [of e c td filename w] show ?thesis
      by auto
  next
    case single: False
    note eq = process_image_single [OF tif single, of e td]
    show ?thesis
    proof (cases "image_open e (files w) (path_join (inputdir c) filename)")
      case (Inl msg)
      with eq show ?thesis
        by simp
    next
      case (Inr mode)
      consider (bitonal) "mode = ''1''" | (photo) "mode \<noteq> ''1''" "mode = ''RGB'' \<or> mode = ''L''"
        | (other) "mode \<noteq> ''1''" "\<not> (mode = ''RGB'' \<or> mode = ''L'')"
        by blast
      then show ?thesis
      proof cases
        case bitonal
        with eq Inr have "process_image e c td filename w = process_bitonal e c td filename w"
          by simp
        with assms process_bitonal_invocations [of e c td filename w] show ?thesis
          by auto
      next
        case photo
        with eq Inr have "process_image e c td filename w = process_photo e c td filename w"
          by simp
        with assms process_photo_invocations [of e c td filename w] show ?thesis
          by auto
      next
        case other
        with eq Inr show ?thesis
          by simp
      qed
    qed
  qed
qed

lemma run_jobs_all_None:
  "\<forall>r\<in>set (fst (run_jobs e c td names w)). r = Inr None \<Longrightarrow> snd (run_jobs e c td names w) = w"
proof (induction names arbitrary: w)
  case Nil
  show ?case by simp
next
  case (Cons filename rest)
  obtain r w1 where p: "process_image e c td filename w = (r, w1)"
    by (cases "process_image e c td filename w")
  with Cons.prems have "r = Inr None"
    and rest: "\<forall>r\<in>set (fst (run_jobs e c td rest w1)). r = Inr None"
    by (auto split: prod.splits)
  with p have "w1 = w"
    using process_image_None [of e c td filename w] by simp
  moreover from rest have "snd (run_jobs e c td rest w1) = w1"
    by (rule Cons.IH)
  ultimately show ?case
    using p by (auto split: prod.splits)
qed

lemma collect_no_pages:
  "list_all2 (result_of td) names rs \<Longrightarrow> collect rs acc = Inr acc \<Longrightarrow> \<forall>r\<in>set rs. r = Inr None"
proof (induction names rs rule: list_all2_induct)
  case Nil
  show ?case by simp
next
  case (Cons n names r rs)
  show ?case
  proof (cases r)
    case (Inl ex)
    with Cons.prems show ?thesis by simp
  next
    case (Inr v)
    show ?thesis
    proof (cases v)
      case None
      with Inr Cons show ?thesis by simp
    next
      case (Some x)
      with Inr Cons.hyps(1) have x: "x = (n, output_path_of td n)"
        by (simp add: result_of_def)
      with Inr Some Cons.prems have "collect rs (acc @ [(n, output_path_of td n)]) = Inr acc"
        by (simp add: output_path_of_nonempty)
      with Cons.hyps(2) have "acc = (acc @ [(n, output_path_of td n)]) @
          map (\<lambda>n. (n, output_path_of td n)) (pages_returned names rs)"
        by (rule collect_pages)
      then have "length acc = length ((acc @ [(n, output_path_of td n)]) @
          map (\<lambda>n. (n, output_path_of td n)) (pages_returned names rs))"
        by (rule arg_cong)
      then show ?thesis by simp
    qed
  qed
qed

lemma collect_all_None:
  "\<forall>r\<in>set rs. r = Inr None \<Longrightarrow> collect rs acc = Inr acc"
  by (induction rs acc rule: collect.induct) simp_all

lemma no_page_no_failure:
  "length names = length rs \<Longrightarrow> pages_returned names rs = [] \<Longrightarrow> \<forall>r\<in>set rs. \<not> isl r \<Longrightarrow>
   \<forall>r\<in>set rs. r = Inr None"
proof (induction names rs rule: list_induct2)
  case Nil
  show ?case by simp
next
  case (Cons n names r rs)
  from Cons.prems(2) have "\<not> isl r"
    by simp
  with Cons.prems(1) have "r = Inr None" and "pages_returned names rs = []"
    by (auto simp add: pages_returned_Cons split: sum.splits option.splits)
  with Cons show ?case
    by simp
qed

text \<open>
  C6, as amended: when no job returned a page and no job raised, \<open>main\<close> ends with the
  report that no pages were found and raises nothing, and the world is the one it started
  in: no process was started (so no \<open>djvm\<close>) and no file was touched, the output file
  included. The assembly step, given no page, does nothing at all: the old output file is
  removed only in the branch that has a page to write.
\<close>

theorem no_pages_no_assembly:
  assumes "\<not> (path_exists w (outputfile_of c) \<and> \<not> confirm e)" and "0 < threads c"
    and "pages_returned (as_completed e (submitted e c w)) (fst (run_pool e c w)) = []"
    and "\<forall>r\<in>set (fst (run_pool e c w)). \<not> isl r"
  shows "main e c w = (Inr NoPagesFound, w) \<and>
     assemble e c (outputfile_of c) (temp_dir_obj_of e c w) [] w' = (Inr NoPagesFound, w')"
proof -
  have "list_all2 (result_of (temp_dir_of e c w)) (as_completed e (submitted e c w))
      (fst (run_pool e c w))"
    using run_pool_results [of e c w] by blast
  then have "length (as_completed e (submitted e c w)) = length (fst (run_pool e c w))"
    by (rule list_all2_lengthD)
  from this assms(3,4) have none: "\<forall>r\<in>set (fst (run_pool e c w)). r = Inr None"
    by (rule no_page_no_failure)
  then have "snd (run_pool e c w) = w"
    unfolding run_pool_def by (rule run_jobs_all_None)
  moreover from none have "collect (fst (run_pool e c w)) [] = Inr []"
    by (rule collect_all_None)
  ultimately show ?thesis
    using assms(1,2) by (simp add: main_unfold restore_order_Nil assemble_def)
qed

theorem no_pages_no_assembly_witness:
  "pages_returned
     (as_completed (demo_env [] [''notes.txt'', ''page4.tif''])
        (submitted (demo_env [] [''notes.txt'', ''page4.tif'']) demo_config demo_world))
     (fst (run_pool (demo_env [] [''notes.txt'', ''page4.tif'']) demo_config demo_world)) = [] \<and>
   path_exists demo_world (outputfile_of demo_config) \<and>
   main (demo_env [] [''notes.txt'', ''page4.tif'']) demo_config demo_world =
     (Inr NoPagesFound, demo_world)"
proof -
  let ?e = "demo_env [] [''notes.txt'', ''page4.tif'']"
  have a: "\<not> (path_exists demo_world (outputfile_of demo_config) \<and> \<not> confirm ?e)"
    by code_simp
  have t: "0 < threads demo_config"
    by (simp add: demo_config_def)
  have z: "pages_returned (as_completed ?e (submitted ?e demo_config demo_world))
      (fst (run_pool ?e demo_config demo_world)) = []"
    by code_simp
  have rs: "fst (run_pool ?e demo_config demo_world) = [Inr None, Inr None]"
    by code_simp
  have n: "\<forall>r\<in>set (fst (run_pool ?e demo_config demo_world)). \<not> isl r"
    unfolding rs by simp
  have x: "path_exists demo_world (outputfile_of demo_config)"
    by code_simp
  from no_pages_no_assembly [OF a t z n] z x show ?thesis
    by blast
qed

text \<open>
  C6 as stated fails when a job raised: with the single candidate \<open>page1.tif\<close> and a
  \<open>cjb2\<close> that exits with status 1, no job returns a page, and the run ends with the
  \<open>CommandError\<close> of that job, not with the report.
\<close>

theorem no_pages_after_failure_counterexample:
  "\<not> (path_exists demo_world (outputfile_of demo_config) \<and>
       \<not> confirm (demo_env [''cjb2''] [''page1.tif''])) \<and>
   0 < threads demo_config \<and>
   pages_returned
     (as_completed (demo_env [''cjb2''] [''page1.tif''])
        (submitted (demo_env [''cjb2''] [''page1.tif'']) demo_config demo_world))
     (fst (run_pool (demo_env [''cjb2''] [''page1.tif'']) demo_config demo_world)) = [] \<and>
   fst (main (demo_env [''cjb2''] [''page1.tif'']) demo_config demo_world) =
     Inl (CommandError
           (''Error running command '' @
            str_list [''cjb2'', ''-dpi'', ''300'', ''-losslevel'', ''1'', ''in/page1.tif'',
                      ''tmp/page1.djvu''] @
            '': Replacement index 2 out of range for positional args tuple'') []) \<and>
   fst (main (demo_env [''cjb2''] [''page1.tif'']) demo_config demo_world) \<noteq> Inr NoPagesFound"
  by code_simp

text \<open>
  C8: when a job has raised and no job that completed before it has, the loop over the
  results ends with that exception whatever the later results are (none of them is
  collected), \<open>main\<close> ends with the same exception in the world the jobs left, and
  \<open>djvm\<close> is not among the processes of the run: the assembly is not reached.
\<close>

theorem first_failure_aborts_collection:
  assumes "\<not> (path_exists w (outputfile_of c) \<and> \<not> confirm e)" and "0 < threads c"
    and "fst (run_pool e c w) = before @ Inl ex # rest"
    and "\<forall>r\<in>set before. \<exists>v. r = Inr v"
  shows "(\<forall>rest' pages. collect (before @ Inl ex # rest') pages = Inl ex) \<and>
     main e c w = (Inl ex, snd (run_pool e c w)) \<and>
     (\<forall>i\<in>set (new_invocations w (snd (main e c w))). hd (fst i) \<noteq> ''djvm'')"
proof -
  from assms(4) have c: "\<forall>rest' pages. collect (before @ Inl ex # rest') pages = Inl ex"
    by (simp add: collect_first_failure)
  with assms(1-3) have m: "main e c w = (Inl ex, snd (run_pool e c w))"
    by (simp add: main_unfold)
  obtain xs where "invocations (snd (run_pool e c w)) = invocations w @ xs"
    and "\<forall>i\<in>set xs. hd (fst i) \<in> set job_programs"
    using run_pool_results [of e c w] by blast
  then have "\<forall>i\<in>set (new_invocations w (snd (run_pool e c w))). hd (fst i) \<noteq> ''djvm''"
    by (rule no_djvm)
  with c m show ?thesis
    by simp
qed

theorem first_failure_aborts_collection_witness:
  "fst (run_pool (demo_env [''c44''] demo_listing) demo_config demo_world) =
     [Inr None, Inr (Some (''page3.tif'', ''tmp/page3.djvu''))] @
     Inl (CommandError
           (''Error running command '' @
            str_list [''c44'', ''-dpi'', ''300'', ''-slice'', ''74,89,99'', ''tmp/djvu_temp_0001'',
                      ''tmp/page2.djvu''] @
            '': Replacement index 2 out of range for positional args tuple'') []) #
     [Inr (Some (''page1.tif'', ''tmp/page1.djvu'')), Inr None, Inr None, Inr None] \<and>
   fst (main (demo_env [''c44''] demo_listing) demo_config demo_world) =
     Inl (CommandError
           (''Error running command '' @
            str_list [''c44'', ''-dpi'', ''300'', ''-slice'', ''74,89,99'', ''tmp/djvu_temp_0001'',
                      ''tmp/page2.djvu''] @
            '': Replacement index 2 out of range for positional args tuple'') []) \<and>
   snd (main (demo_env [''c44''] demo_listing) demo_config demo_world) =
     snd (run_pool (demo_env [''c44''] demo_listing) demo_config demo_world)"
proof -
  let ?e = "demo_env [''c44''] demo_listing"
  let ?ex = "CommandError
           (''Error running command '' @
            str_list [''c44'', ''-dpi'', ''300'', ''-slice'', ''74,89,99'', ''tmp/djvu_temp_0001'',
                      ''tmp/page2.djvu''] @
            '': Replacement index 2 out of range for positional args tuple'') []"
  have a: "\<not> (path_exists demo_world (outputfile_of demo_config) \<and> \<not> confirm ?e)"
    by code_simp
  have t: "0 < threads demo_config"
    by (simp add: demo_config_def)
  have r: "fst (run_pool ?e demo_config demo_world) =
     [Inr None, Inr (Some (''page3.tif'', ''tmp/page3.djvu''))] @ Inl ?ex #
     [Inr (Some (''page1.tif'', ''tmp/page1.djvu'')), Inr None, Inr None, Inr None]"
    by code_simp
  have b: "\<forall>r\<in>set [Inr None, Inr (Some (''page3.tif'', ''tmp/page3.djvu''))].
      \<exists>v. r = (Inr v :: job_result)"
    by simp
  from first_failure_aborts_collection [OF a t r b] r show ?thesis
    by simp
qed

text \<open>
  A run only adds to the list of processes, so \<open>new_invocations\<close> of its first and
  last world is what the run started.
\<close>

lemma main_invocations_grow:
  "\<exists>xs. invocations (snd (main e c w)) = invocations w @ xs"
proof (cases "(path_exists w (outputfile_of c) \<and> \<not> confirm e) \<or> threads c \<le> 0")
  case True
  then have "snd (main e c w) = w"
    by (rule main_stops_early)
  then show ?thesis
    by simp
next
  case False
  then have go: "\<not> (path_exists w (outputfile_of c) \<and> \<not> confirm e)" "0 < threads c"
    by auto
  obtain xs where xs: "invocations (snd (run_pool e c w)) = invocations w @ xs"
    using run_pool_results [of e c w] by blast
  show ?thesis
    unfolding main_unfold [OF go]
    by (simp add: xs assemble_invocations split: sum.splits)
qed

lemma restored_names:
  assumes "distinct names" and "mset completion = mset names" and "sorted names"
    and "list_all2 (result_of td) completion rs"
    and "collect rs [] = Inr pages"
    and "restore_order listing pages = Inr ps" and "sorted listing"
  shows "map snd ps =
     map (output_path_of td) (filter (\<lambda>n. n \<in> set (pages_returned completion rs)) names)"
proof -
  let ?R = "pages_returned completion rs"
  let ?F = "filter (\<lambda>n. n \<in> set ?R) names"
  from assms(4,5) have pages: "pages = map (\<lambda>n. (n, output_path_of td n)) ?R"
    using collect_pages [of td completion rs "[]" pages] by simp
  from assms(6,7) have s: "sorted (map fst ps)" and m: "mset ps = mset pages"
    using restore_order_sorted by blast+
  from assms(1,2) have "distinct completion"
    by (metis mset_eq_imp_distinct_iff)
  then have dR: "distinct ?R"
    by (rule pages_returned_distinct)
  from m have "mset (map fst ps) = mset (map fst pages)"
    by simp
  also from pages have "map fst pages = ?R"
    by (simp add: comp_def)
  finally have mR: "mset (map fst ps) = mset ?R" .
  then have "distinct (map fst ps)" and "set (map fst ps) = set ?R"
    using dR mset_eq_imp_distinct_iff mset_eq_setD by blast+
  moreover have "set ?R \<subseteq> set names"
    using pages_returned_subset [of completion rs] assms(2) mset_eq_setD by blast
  then have "set ?F = set ?R"
    by auto
  moreover from assms(1,3) have "distinct ?F" "sorted ?F"
    by (simp_all add: sorted_wrt_filter)
  ultimately have names: "map fst ps = ?F"
    using s by (intro sorted_distinct_set_unique) simp_all
  from m have "set ps = set pages"
    by (rule mset_eq_setD)
  with pages have "\<forall>x\<in>set ps. snd x = output_path_of td (fst x)"
    by auto
  then have "map snd ps = map (output_path_of td) (map fst ps)"
    by simp
  with names show ?thesis
    by simp
qed

text \<open>
  C1: whatever the number of workers and the order in which the jobs complete (any
  rearrangement \<open>as_completed\<close> of the names submitted), every \<open>djvm\<close> process that a
  run of \<open>main\<close> starts gets, after the output file, the output paths of exactly the
  names whose job returned a page, in the order of the sorted directory listing.
\<close>

theorem pages_in_filename_order:
  assumes "distinct (listdir e (files w) (inputdir c))"
    and "mset (as_completed e (submitted e c w)) = mset (submitted e c w)"
    and "(command, input_data) \<in> set (new_invocations w (snd (main e c w)))"
    and "hd command = ''djvm''"
  shows "command =
     [''djvm'', ''-c'', outputfile_of c] @
       map (output_path_of (temp_dir_of e c w))
         (filter (\<lambda>n. n \<in> set (pages_returned (as_completed e (submitted e c w))
                                  (fst (run_pool e c w))))
            (submitted e c w))"
proof (cases "(path_exists w (outputfile_of c) \<and> \<not> confirm e) \<or> threads c \<le> 0")
  case True
  then have "snd (main e c w) = w"
    by (rule main_stops_early)
  with assms(3) show ?thesis
    by (simp add: new_invocations_def)
next
  case False
  then have go: "\<not> (path_exists w (outputfile_of c) \<and> \<not> confirm e)" "0 < threads c"
    by auto
  note m = main_unfold [OF go]
  let ?rs = "fst (run_pool e c w)"
  let ?w1 = "snd (run_pool e c w)"
  let ?td = "temp_dir_of e c w"
  obtain xs where xs: "invocations ?w1 = invocations w @ xs"
    "\<forall>i\<in>set xs. hd (fst i) \<in> set job_programs"
    "list_all2 (result_of ?td) (as_completed e (submitted e c w)) ?rs"
    using run_pool_results [of e c w] by blast
  from xs(1,2) have jobs: "\<forall>i\<in>set (new_invocations w ?w1). hd (fst i) \<noteq> ''djvm''"
    by (rule no_djvm)
  show ?thesis
  proof (cases "collect ?rs []")
    case (Inl ex)
    with m have "snd (main e c w) = ?w1" by simp
    with assms(3,4) jobs show ?thesis by auto
  next
    case (Inr pages)
    let ?listing = "sort (listdir e (files ?w1) (inputdir c))"
    show ?thesis
    proof (cases "restore_order ?listing pages")
      case (Inl ex)
      with m Inr have "snd (main e c w) = ?w1" by simp
      with assms(3,4) jobs show ?thesis by auto
    next
      case ps: (Inr ps)
      with m Inr have "main e c w =
          assemble e c (outputfile_of c) (temp_dir_obj_of e c w) (map snd ps) ?w1"
        by simp
      then have "invocations (snd (main e c w)) = invocations w @ xs @
          (if map snd ps = [] then [] else [([''djvm'', ''-c'', outputfile_of c] @ map snd ps, None)])"
        by (simp add: assemble_invocations xs(1))
      then have "new_invocations w (snd (main e c w)) = xs @
          (if map snd ps = [] then [] else [([''djvm'', ''-c'', outputfile_of c] @ map snd ps, None)])"
        by (rule new_invocations_append)
      with assms(3,4) xs(2) djvm_not_job_program
      have c: "command = [''djvm'', ''-c'', outputfile_of c] @ map snd ps"
        by (auto split: if_splits)
      from assms(1) have "distinct (submitted e c w)" "sorted (submitted e c w)"
        by (simp_all add: submitted_def)
      with assms(2) xs(3) Inr ps
      have "map snd ps = map (output_path_of ?td)
          (filter (\<lambda>n. n \<in> set (pages_returned (as_completed e (submitted e c w)) ?rs))
             (submitted e c w))"
        by (intro restored_names [where listing = ?listing and pages = pages]) simp_all
      with c show ?thesis by simp
    qed
  qed
qed

theorem pages_in_filename_order_witness:
  "as_completed (demo_env [] demo_listing) (submitted (demo_env [] demo_listing) demo_config demo_world) =
     [''page4.tif'', ''page3.tif'', ''page2.tif'', ''page1.tif'', ''notes.txt'', ''foreground'',
      ''background''] \<and>
   ([''djvm'', ''-c'', ''in/output.djvu'', ''tmp/page1.djvu'', ''tmp/page2.djvu'',
     ''tmp/page3.djvu''], None)
     \<in> set (new_invocations demo_world (snd (main (demo_env [] demo_listing) demo_config demo_world))) \<and>
   [''djvm'', ''-c'', ''in/output.djvu'', ''tmp/page1.djvu'', ''tmp/page2.djvu'', ''tmp/page3.djvu''] =
     [''djvm'', ''-c'', outputfile_of demo_config] @
       map (output_path_of (temp_dir_of (demo_env [] demo_listing) demo_config demo_world))
         (filter (\<lambda>n. n \<in> set (pages_returned
                     (as_completed (demo_env [] demo_listing)
                        (submitted (demo_env [] demo_listing) demo_config demo_world))
                     (fst (run_pool (demo_env [] demo_listing) demo_config demo_world))))
            (submitted (demo_env [] demo_listing) demo_config demo_world))"
proof -
  let ?e = "demo_env [] demo_listing"
  let ?cmd = "[''djvm'', ''-c'', ''in/output.djvu'', ''tmp/page1.djvu'', ''tmp/page2.djvu'',
     ''tmp/page3.djvu'']"
  have d: "distinct (listdir ?e (files demo_world) (inputdir demo_config))"
    by code_simp
  have p: "mset (as_completed ?e (submitted ?e demo_config demo_world)) =
      mset (submitted ?e demo_config demo_world)"
    by (simp add: demo_env_def)
  have o: "as_completed ?e (submitted ?e demo_config demo_world) =
     [''page4.tif'', ''page3.tif'', ''page2.tif'', ''page1.tif'', ''notes.txt'', ''foreground'',
      ''background'']"
    by code_simp
  have i: "(?cmd, None) \<in> set (new_invocations demo_world (snd (main ?e demo_config demo_world)))"
    by code_simp
  have h: "hd ?cmd = ''djvm''"
    by simp
  from pages_in_filename_order [OF d p i h] o i show ?thesis
    by blast
qed

end
